theory Spec2Isabelle
  imports Main "HOL-Library.Word"
begin

section \<open>Errors\<close>

text \<open>
  The kinds of \<^verbatim>\<open>csv.ParseError\<close> the reader of \<^verbatim>\<open>encoding/csv\<close> can raise in the
  configuration \<^verbatim>\<open>DecodeContacts\<close> uses (line and column numbers are left out).
\<close>

datatype csv_error = ErrBareQuote | ErrQuote | ErrFieldCount

text \<open>
  Go error values. \<open>ErrCorruptedContacts\<close> is the package-level sentinel of
  \<^verbatim>\<open>client.go\<close>; \<open>Errorf prefix e\<close> is \<^verbatim>\<open>fmt.Errorf(prefix + "%v", e)\<close>, a fresh
  error value that is never equal (\<^verbatim>\<open>==\<close>) to the sentinel; \<open>ErrorString s\<close> is an
  error made from a message alone.
\<close>

datatype error =
    ErrCorruptedContacts
  | ParseError csv_error
  | ErrorString string
  | Errorf string error

section \<open>The reader of encoding/csv, as DecodeContacts configures it\<close>

text \<open>
  \<^verbatim>\<open>encoding/csv\<close> belongs to Go's standard library, not to the repository. The
  definitions of this section follow its reader (\<^verbatim>\<open>readLine\<close>, \<^verbatim>\<open>readRecord\<close>,
  \<^verbatim>\<open>ReadAll\<close>, Go 1.10 and later) for input held in memory, where the only read
  error is \<^verbatim>\<open>io.EOF\<close>.
\<close>

abbreviation NL :: char where "NL \<equiv> CHR 0x0A"
abbreviation CR :: char where "CR \<equiv> CHR 0x0D"
abbreviation comma :: char where "comma \<equiv> CHR 0x2C"
abbreviation quote :: char where "quote \<equiv> CHR 0x22"

text \<open>
  \<^verbatim>\<open>csv.Reader\<close>: the bytes not read yet, the comment rune (\<open>None\<close> is rune 0: no
  comments) and \<^verbatim>\<open>FieldsPerRecord\<close>. \<^verbatim>\<open>Comma\<close> is \<^verbatim>\<open>','\<close>, \<^verbatim>\<open>LazyQuotes\<close> and
  \<^verbatim>\<open>TrimLeadingSpace\<close> are false: \<^verbatim>\<open>csv.NewReader\<close> sets them so and the program
  never changes them.
\<close>

record Reader =
  input :: string
  Comment :: "char option"
  FieldsPerRecord :: int

definition NewReader :: "string \<Rightarrow> Reader" where
  "NewReader b = \<lparr>input = b, Comment = None, FieldsPerRecord = 0\<rparr>"

text \<open>\<^verbatim>\<open>bufio.Reader.ReadSlice('\n')\<close>: the bytes up to and including the first newline, or all of them.\<close>

fun readSlice :: "string \<Rightarrow> string \<times> string" where
  "readSlice [] = ([], [])"
| "readSlice (c # cs) =
     (if c = NL then ([c], cs) else (case readSlice cs of (l, r) \<Rightarrow> (c # l, r)))"

text \<open>\<^verbatim>\<open>lengthNL\<close>: 1 when the line ends with a newline, else 0.\<close>

definition lengthNL :: "string \<Rightarrow> nat" where
  "lengthNL b = (if b \<noteq> [] \<and> last b = NL then 1 else 0)"

text \<open>
  \<^verbatim>\<open>Reader.readLine\<close>: \<open>None\<close> is \<^verbatim>\<open>io.EOF\<close>. A last line with no newline is
  returned without error, its trailing carriage return dropped; a line ending
  in CR LF is returned ending in LF.
\<close>

definition readLine :: "string \<Rightarrow> (string \<times> string) option" where
  "readLine inp =
     (if inp = [] then None
      else (case readSlice inp of (line, rest) \<Rightarrow>
        (let line1 = (if last line \<noteq> NL \<and> last line = CR then butlast line else line);
             n = length line1;
             line2 = (if 2 \<le> n \<and> line1 ! (n - 2) = CR \<and> line1 ! (n - 1) = NL
                      then take (n - 2) line1 @ [NL] else line1)
         in Some (line2, rest))))"

lemma readSlice_length: "readSlice inp = (l, r) \<Longrightarrow> length l + length r = length inp"
  by (induction inp arbitrary: l r) (auto split: if_splits prod.splits)

lemma readSlice_nonempty: "inp \<noteq> [] \<Longrightarrow> readSlice inp = (l, r) \<Longrightarrow> l \<noteq> []"
  by (cases inp) (auto split: if_splits prod.splits)

lemma readLine_size:
  assumes "readLine inp = Some (l, r)"
  shows "length l + length r \<le> length inp" and "length r < length inp"
proof -
  from assms obtain l0 where s: "readSlice inp = (l0, r)" and ne: "inp \<noteq> []"
    by (auto simp: readLine_def Let_def split: if_splits prod.splits)
  have l0: "length l0 + length r = length inp" "l0 \<noteq> []"
    using readSlice_length [OF s] readSlice_nonempty [OF ne s] by auto
  from assms s ne have "length l \<le> length l0"
    by (auto simp: readLine_def Let_def split: if_splits)
  with l0 show "length l + length r \<le> length inp" by simp
  from l0 show "length r < length inp" by (cases l0) auto
qed

text \<open>
  The \<^verbatim>\<open>parseField\<close> loop of \<^verbatim>\<open>Reader.readRecord\<close>. \<open>quoted\<close> tells whether the
  loop is inside a quoted field (the inner \<^verbatim>\<open>for\<close>), \<open>line\<close> is what is left of
  the current line, \<open>inp\<close> the bytes after it, \<open>buf\<close> the quoted field read so
  far and \<open>dst\<close> the fields of the record so far. A quoted field may run over
  several lines; the loop then reads them from \<open>inp\<close>.
\<close>

function parseField ::
  "bool \<Rightarrow> string \<Rightarrow> string \<Rightarrow> string \<Rightarrow> string list \<Rightarrow> (csv_error + string list) \<times> string"
where
  "parseField quoted line inp buf dst =
     (if \<not> quoted then
        (if line = [] \<or> hd line \<noteq> quote then
           (let field = takeWhile (\<lambda>c. c \<noteq> comma) line;
                rest = dropWhile (\<lambda>c. c \<noteq> comma) line
            in if rest \<noteq> [] then
                 (if quote \<in> set field then (Inl ErrBareQuote, inp)
                  else parseField False (tl rest) inp [] (dst @ [field]))
               else
                 (let field' = take (length line - lengthNL line) line
                  in if quote \<in> set field' then (Inl ErrBareQuote, inp)
                     else (Inr (dst @ [field']), inp)))
         else parseField True (tl line) inp [] dst)
      else
        (let pre = takeWhile (\<lambda>c. c \<noteq> quote) line;
             rest = dropWhile (\<lambda>c. c \<noteq> quote) line
         in if rest \<noteq> [] then
              (let line' = tl rest
               in if line' \<noteq> [] \<and> hd line' = quote then
                    parseField True (tl line') inp (buf @ pre @ [quote]) dst
                  else if line' \<noteq> [] \<and> hd line' = comma then
                    parseField False (tl line') inp [] (dst @ [buf @ pre])
                  else if lengthNL line' = length line' then (Inr (dst @ [buf @ pre]), inp)
                  else (Inl ErrQuote, inp))
            else if line \<noteq> [] then
              (case readLine inp of
                 None \<Rightarrow> parseField True [] [] (buf @ line) dst
               | Some (l, inp') \<Rightarrow> parseField True l inp' (buf @ line) dst)
            else (Inl ErrQuote, inp)))"
  by pat_completeness auto

lemma length_tl_dropWhile: "dropWhile P xs \<noteq> [] \<Longrightarrow> length (tl (dropWhile P xs)) < length xs"
proof -
  assume "dropWhile P xs \<noteq> []"
  then have "length (tl (dropWhile P xs)) < length (dropWhile P xs)" by (cases "dropWhile P xs") auto
  also have "\<dots> \<le> length xs" by (rule length_dropWhile_le)
  finally show ?thesis .
qed

lemma length_tl_tl_dropWhile:
  assumes "tl (dropWhile P xs) \<noteq> []"
  shows "length (tl (tl (dropWhile P xs))) < length xs"
proof -
  from assms have "dropWhile P xs \<noteq> []" by (cases "dropWhile P xs") auto
  then have "length (tl (dropWhile P xs)) < length xs" by (rule length_tl_dropWhile)
  moreover from assms have "length (tl (tl (dropWhile P xs))) < length (tl (dropWhile P xs))"
    by (cases "tl (dropWhile P xs)") auto
  ultimately show ?thesis by simp
qed

termination parseField
proof (relation "measure (\<lambda>(quoted, line, inp, buf, dst). length line + length inp)", goal_cases)
  case 1
  show ?case by simp
next
  case (2 quoted line inp buf dst field rest)
  then show ?case using length_tl_dropWhile [of "\<lambda>c. c \<noteq> comma" line] by simp
next
  case (3 quoted line inp buf dst)
  then show ?case by (cases line) auto
next
  case (4 quoted line inp buf dst pre rest line')
  then show ?case using length_tl_tl_dropWhile [of "\<lambda>c. c \<noteq> quote" line] by simp
next
  case (5 quoted line inp buf dst pre rest line')
  then show ?case using length_tl_tl_dropWhile [of "\<lambda>c. c \<noteq> quote" line] by simp
next
  case (6 quoted line inp buf dst pre rest)
  then show ?case by (cases line) auto
next
  case (7 quoted line inp buf dst pre rest x2 l inp')
  then show ?case using readLine_size(1) [of inp l inp'] by (cases line) auto
qed

declare parseField.simps [simp del]

text \<open>
  The first loop of \<^verbatim>\<open>Reader.readRecord\<close>: read lines until one is neither a
  comment (its first rune is the comment rune) nor empty. \<open>None\<close> is \<^verbatim>\<open>io.EOF\<close>.
\<close>

function nextLine :: "char option \<Rightarrow> string \<Rightarrow> (string \<times> string) option" where
  "nextLine cmt inp =
     (case readLine inp of
        None \<Rightarrow> None
      | Some (line, rest) \<Rightarrow>
          if cmt \<noteq> None \<and> line \<noteq> [] \<and> Some (hd line) = cmt then nextLine cmt rest
          else if length line = lengthNL line then nextLine cmt rest
          else Some (line, rest))"
  by pat_completeness auto

termination nextLine
proof (relation "measure (\<lambda>(cmt, inp). length inp)", goal_cases)
  case 1
  show ?case by simp
next
  case (2 cmt inp x2 line rest)
  then show ?case using readLine_size(2) [of inp line rest] by simp
next
  case (3 cmt inp x2 line rest)
  then show ?case using readLine_size(2) [of inp line rest] by simp
qed

declare nextLine.simps [simp del]

text \<open>
  \<^verbatim>\<open>Reader.readRecord\<close>: the next record, or a parse error, or \<open>None\<close> at
  \<^verbatim>\<open>io.EOF\<close>; and the reader afterwards. A positive \<^verbatim>\<open>FieldsPerRecord\<close> is
  checked against the record; when it is 0 it is set to the number of fields of
  this (the first) record; when it is negative no check is made.
\<close>

definition readRecord :: "Reader \<Rightarrow> (csv_error + string list) option \<times> Reader" where
  "readRecord r =
     (case nextLine (Comment r) (input r) of
        None \<Rightarrow> (None, r\<lparr>input := []\<rparr>)
      | Some (line, rest) \<Rightarrow>
          (case parseField False line rest [] [] of
             (Inl err, rest') \<Rightarrow> (Some (Inl err), r\<lparr>input := rest'\<rparr>)
           | (Inr dst, rest') \<Rightarrow>
               if 0 < FieldsPerRecord r then
                 (if int (length dst) \<noteq> FieldsPerRecord r
                  then (Some (Inl ErrFieldCount), r\<lparr>input := rest'\<rparr>)
                  else (Some (Inr dst), r\<lparr>input := rest'\<rparr>))
               else if FieldsPerRecord r = 0 then
                 (Some (Inr dst), r\<lparr>input := rest', FieldsPerRecord := int (length dst)\<rparr>)
               else (Some (Inr dst), r\<lparr>input := rest'\<rparr>)))"

lemma parseField_rest: "parseField q line inp buf dst = (res, rest) \<Longrightarrow> length rest \<le> length inp"
proof (induction q line inp buf dst arbitrary: res rest rule: parseField.induct)
  case (1 quoted line inp buf dst)
  note IH = "1.IH" and eq = "1.prems" [unfolded parseField.simps [of quoted line inp buf dst]]
  show ?case
  proof (cases quoted)
    case False
    show ?thesis
    proof (cases "line = [] \<or> hd line \<noteq> quote")
      case True
      with False eq IH(1) [OF False True refl refl] show ?thesis
        by (auto simp: Let_def split: if_splits)
    next
      case nq: False
      with False eq IH(2) [OF False nq] show ?thesis by auto
    qed
  next
    case True
    then have q: "\<not> \<not> quoted" by simp
    show ?thesis
    proof (cases "dropWhile (\<lambda>c. c \<noteq> quote) line \<noteq> []")
      case found: True
      with True eq IH(3) [OF q refl refl found refl] IH(4) [OF q refl refl found refl]
      show ?thesis by (auto simp: Let_def split: if_splits)
    next
      case nf: False
      show ?thesis
      proof (cases "line = []")
        case True
        with \<open>quoted\<close> nf eq show ?thesis by (auto simp: Let_def)
      next
        case ne: False
        show ?thesis
        proof (cases "readLine inp")
          case None
          with \<open>quoted\<close> nf ne eq IH(5) [OF q refl refl nf ne None] show ?thesis
            by (auto simp: Let_def)
        next
          case (Some a)
          obtain l inp' where a: "a = (l, inp')" by (cases a)
          from \<open>quoted\<close> nf ne eq Some a have "parseField True l inp' (buf @ line) dst = (res, rest)"
            by (auto simp: Let_def)
          from IH(6) [OF q refl refl nf ne Some a [symmetric] this]
            readLine_size(1) [OF Some [unfolded a]]
          show ?thesis by simp
        qed
      qed
    qed
  qed
qed

lemma nextLine_rest: "nextLine cmt inp = Some (line, rest) \<Longrightarrow> length rest < length inp"
proof (induction cmt inp rule: nextLine.induct)
  case (1 cmt inp)
  from "1.prems" obtain l0 r0 where rl: "readLine inp = Some (l0, r0)"
    by (subst (asm) nextLine.simps) (auto split: option.splits)
  note sz = readLine_size(2) [OF rl]
  from "1.prems" rl have
    "(nextLine cmt r0 = Some (line, rest) \<and>
        ((cmt \<noteq> None \<and> l0 \<noteq> [] \<and> Some (hd l0) = cmt) \<or>
         (\<not> (cmt \<noteq> None \<and> l0 \<noteq> [] \<and> Some (hd l0) = cmt) \<and> length l0 = lengthNL l0)))
     \<or> rest = r0"
    by (subst (asm) nextLine.simps) (auto split: if_splits)
  then show ?case
  proof
    assume a: "nextLine cmt r0 = Some (line, rest) \<and>
        ((cmt \<noteq> None \<and> l0 \<noteq> [] \<and> Some (hd l0) = cmt) \<or>
         (\<not> (cmt \<noteq> None \<and> l0 \<noteq> [] \<and> Some (hd l0) = cmt) \<and> length l0 = lengthNL l0))"
    then have "length rest < length r0"
      using "1.IH"(1) [OF rl refl] "1.IH"(2) [OF rl refl] by blast
    with sz show ?thesis by simp
  next
    assume "rest = r0"
    with sz show ?thesis by simp
  qed
qed

lemma readRecord_input:
  "readRecord r = (Some res, r') \<Longrightarrow> length (input r') < length (input r)"
  by (auto simp: readRecord_def split: option.splits prod.splits sum.splits if_splits
      dest!: nextLine_rest parseField_rest)

text \<open>\<^verbatim>\<open>Reader.ReadAll\<close>: records until \<^verbatim>\<open>io.EOF\<close>; the first error discards them all.\<close>

function ReadAllLoop :: "Reader \<Rightarrow> string list list \<Rightarrow> csv_error + string list list" where
  "ReadAllLoop r records =
     (case readRecord r of
        (None, _) \<Rightarrow> Inr records
      | (Some (Inl err), _) \<Rightarrow> Inl err
      | (Some (Inr rec), r') \<Rightarrow> ReadAllLoop r' (records @ [rec]))"
  by pat_completeness auto

termination ReadAllLoop
proof (relation "measure (\<lambda>(r, records). length (input r))", goal_cases)
  case 1
  show ?case by simp
next
  case (2 r records x y z rec)
  then show ?case using readRecord_input [of r "Inr rec" y] by simp
qed

declare ReadAllLoop.simps [simp del]

definition ReadAll :: "Reader \<Rightarrow> csv_error + string list list" where
  "ReadAll r = ReadAllLoop r []"

section \<open>Contacts\<close>

record Contact =
  Name :: string
  Type :: string
  Number :: string

definition NewContact :: "string \<Rightarrow> string \<Rightarrow> Contact" where
  "NewContact num name = \<lparr>Name = name, Type = ''phone'', Number = num\<rparr>"

text \<open>
  The loop of \<^verbatim>\<open>DecodeContacts\<close> over the records: a record of fewer than two
  fields is discarded, any other one appends a contact.
\<close>

fun decodeRecs :: "string list list \<Rightarrow> Contact list \<Rightarrow> Contact list" where
  "decodeRecs [] acc = acc"
| "decodeRecs (rec # recs) acc =
     (if length rec < 2 then decodeRecs recs acc
      else decodeRecs recs (acc @ [NewContact (rec ! 0) (rec ! 1)]))"

text \<open>
  \<^verbatim>\<open>DecodeContacts\<close>. Its argument \<^verbatim>\<open>f\<close> writes the directory into a buffer and
  returns an error or nil: it is modelled by the bytes it wrote and the error
  it returned. A nil slice and an empty one are both \<open>[]\<close>.
\<close>

definition DecodeContacts :: "string \<times> error option \<Rightarrow> Contact list \<times> error option" where
  "DecodeContacts f =
     (case f of
        (buf, Some err) \<Rightarrow> ([], Some err)
      | (buf, None) \<Rightarrow>
          (case ReadAll ((NewReader buf)\<lparr>Comment := Some (CHR ''#'')\<rparr>) of
             Inl err \<Rightarrow> ([], Some (Errorf ''decode contacts: '' (ParseError err)))
           | Inr recs \<Rightarrow>
               (let acc = decodeRecs recs []
                in if length acc \<noteq> length recs then (acc, Some ErrCorruptedContacts)
                   else (acc, None))))"

text \<open>
  The rows of a directory: what the same reader returns when it makes no check
  of the number of fields (a negative \<^verbatim>\<open>FieldsPerRecord\<close>). \<open>uniform\<close>: every row
  has as many fields as the first.
\<close>

definition csvRows :: "string \<Rightarrow> csv_error + string list list" where
  "csvRows buf = ReadAll ((NewReader buf)\<lparr>Comment := Some (CHR ''#''), FieldsPerRecord := - 1\<rparr>)"

definition uniform :: "string list list \<Rightarrow> bool" where
  "uniform rows = (\<forall>x\<in>set rows. length x = length (hd rows))"

text \<open>A field that needs no quoting: no comma, no quote, no line break.\<close>

definition plain :: "string \<Rightarrow> bool" where
  "plain s = (\<forall>c\<in>set s. c \<noteq> comma \<and> c \<noteq> quote \<and> c \<noteq> NL \<and> c \<noteq> CR)"

section \<open>JSON values\<close>

text \<open>
  A JSON value; a number is kept as its text. \<open>marshalContact\<close> is what
  \<^verbatim>\<open>encoding/json\<close> emits for a \<^verbatim>\<open>Contact\<close> under its struct tags: \<^verbatim>\<open>Name\<close> is
  tagged \<^verbatim>\<open>json:"-"\<close> and left out.
\<close>

datatype json =
    JNull
  | JBool bool
  | JNumber string
  | JString string
  | JArray "json list"
  | JObject "(string \<times> json) list"

definition marshalContact :: "Contact \<Rightarrow> json" where
  "marshalContact c = JObject [(''type'', JString (Type c)), (''number'', JString (Number c))]"

text \<open>
  Decoding a JSON value into a struct whose fields are all strings, given as
  the list of its JSON names with their current values. An object member is
  stored in the field whose name equals its key up to the case of ASCII
  letters (the names used here hold no letter that folds to a rune outside
  ASCII); a string is stored, \<^verbatim>\<open>null\<close> leaves the field as it is, any other
  value is an \<^verbatim>\<open>UnmarshalTypeError\<close>. A top-level \<^verbatim>\<open>null\<close> changes nothing; any
  other value that is not an object is an \<^verbatim>\<open>UnmarshalTypeError\<close>.
\<close>

definition asciiLower :: "char \<Rightarrow> char" where
  "asciiLower c =
     (if (65::nat) \<le> of_char c \<and> of_char c \<le> (90::nat) then char_of (of_char c + (32::nat)) else c)"

definition foldEq :: "string \<Rightarrow> string \<Rightarrow> bool" where
  "foldEq a b = (map asciiLower a = map asciiLower b)"

definition UnmarshalTypeError :: error where
  "UnmarshalTypeError = ErrorString ''json: cannot unmarshal value into Go value''"

fun setField :: "string \<Rightarrow> json \<Rightarrow> (string \<times> string) list \<Rightarrow> error + (string \<times> string) list" where
  "setField k v [] = Inr []"
| "setField k v ((f, cur) # fs) =
     (if foldEq f k then
        (case v of
           JString s \<Rightarrow> Inr ((f, s) # fs)
         | JNull \<Rightarrow> Inr ((f, cur) # fs)
         | _ \<Rightarrow> Inl UnmarshalTypeError)
      else (case setField k v fs of Inl err \<Rightarrow> Inl err | Inr fs' \<Rightarrow> Inr ((f, cur) # fs')))"

fun decodeMembers :: "(string \<times> json) list \<Rightarrow> (string \<times> string) list \<Rightarrow> error + (string \<times> string) list" where
  "decodeMembers [] fs = Inr fs"
| "decodeMembers ((k, v) # kvs) fs =
     (case setField k v fs of Inl err \<Rightarrow> Inl err | Inr fs' \<Rightarrow> decodeMembers kvs fs')"

definition decodeStruct :: "error + json \<Rightarrow> (string \<times> string) list \<Rightarrow> error + (string \<times> string) list" where
  "decodeStruct body fs =
     (case body of
        Inl err \<Rightarrow> Inl err
      | Inr (JObject kvs) \<Rightarrow> decodeMembers kvs fs
      | Inr JNull \<Rightarrow> Inr fs
      | Inr _ \<Rightarrow> Inl UnmarshalTypeError)"

definition field :: "string \<Rightarrow> (string \<times> string) list \<Rightarrow> string" where
  "field f fs = (case map_of fs f of None \<Rightarrow> [] | Some v \<Rightarrow> v)"

section \<open>The client\<close>

text \<open>
  \<^verbatim>\<open>time.Duration\<close> is a signed 64-bit count of nanoseconds. A context is
  modelled by its timeout (\<open>None\<close>: \<^verbatim>\<open>context.Background()\<close>).
\<close>

type_synonym Duration = "64 word"

definition Second :: Duration where
  "Second = 1000000000"

record Context =
  timeout :: "Duration option"

definition Background :: Context where
  "Background = \<lparr>timeout = None\<rparr>"

definition WithTimeout :: "Context \<Rightarrow> Duration \<Rightarrow> Context" where
  "WithTimeout parent d = parent\<lparr>timeout := Some d\<rparr>"

text \<open>
  \<^verbatim>\<open>NewLimiter\<close> is not among the sources: a limiter is modelled by the rate it
  was made with, and what its \<^verbatim>\<open>Wait\<close> returns is left to the world below.
\<close>

datatype Limiter = NewLimiter nat

fun rate :: "Limiter \<Rightarrow> nat" where
  "rate (NewLimiter n) = n"

definition CallLimiter :: Limiter where
  "CallLimiter = NewLimiter 3"

definition GetLimiter :: Limiter where
  "GetLimiter = NewLimiter 15"

record Request =
  reqMethod :: string
  reqURL :: string
  reqHeader :: "(string \<times> string) list"
  reqBody :: "string option"

record Response =
  StatusCode :: int
  Status :: string
  RespBody :: string

text \<open>
  What lies outside the repository, as one call meets it: the result of
  signing a token, of \<^verbatim>\<open>http.NewRequest\<close> (an error for a method or URL it
  refuses), of the HTTP client's \<^verbatim>\<open>Do\<close>, of a limiter's \<^verbatim>\<open>Wait\<close>, and of
  \<^verbatim>\<open>json.Encoder.Encode\<close>.
\<close>

record World =
  signedString :: "error + string"
  newRequestError :: "string \<Rightarrow> string \<Rightarrow> error option"
  roundTrip :: "Request \<Rightarrow> error + Response"
  limiterWait :: "Limiter \<Rightarrow> Context \<Rightarrow> error option"
  jsonEncode :: "json \<Rightarrow> error + string"

record Client =
  AppID :: string
  ClientNumber :: string
  Origin :: string
  key :: "string option"

definition Token :: "World \<Rightarrow> Client \<Rightarrow> error + string" where
  "Token w c =
     (case key c of
        None \<Rightarrow> Inl (ErrorString ''token: found nil key. Use NewClient to create a valid Client'')
      | Some k \<Rightarrow> signedString w)"

definition checkStatus :: "Response \<Rightarrow> error option" where
  "checkStatus resp =
     (if StatusCode resp = 200 \<or> StatusCode resp = 201 then None
      else Some (ErrorString (''request failed: '' @ Status resp)))"

definition setHeader :: "string \<Rightarrow> string \<Rightarrow> Request \<Rightarrow> Request" where
  "setHeader k v req = req\<lparr>reqHeader := (k, v) # filter (\<lambda>(k', _). k' \<noteq> k) (reqHeader req)\<rparr>"

definition Do :: "World \<Rightarrow> Client \<Rightarrow> string \<Rightarrow> string \<Rightarrow> string option \<Rightarrow> Response option \<times> error option" where
  "Do w c method url body =
     (case Token w c of
        Inl err \<Rightarrow> (None, Some (Errorf ''unable to create authorization token: '' err))
      | Inr token \<Rightarrow>
          (case newRequestError w method url of
             Some err \<Rightarrow> (None, Some (Errorf ''unable to make request: '' err))
           | None \<Rightarrow>
               (let req = \<lparr>reqMethod = method, reqURL = url, reqHeader = [], reqBody = body\<rparr>;
                    req = setHeader ''Authorization'' (''Bearer '' @ token) req;
                    req = (if method = ''POST'' then setHeader ''Content-Type'' ''application/json'' req
                           else req)
                in (case roundTrip w req of
                      Inl err \<Rightarrow> (None, Some err)
                    | Inr resp \<Rightarrow> (Some resp, checkStatus resp)))))"

definition Get :: "World \<Rightarrow> Client \<Rightarrow> Context \<Rightarrow> string \<Rightarrow> Response option \<times> error option" where
  "Get w c ctx url =
     (case limiterWait w GetLimiter ctx of
        Some err \<Rightarrow> (None, Some (Errorf ''client: unable to perform Get: '' err))
      | None \<Rightarrow> Do w c ''GET'' url None)"

definition Post :: "World \<Rightarrow> Client \<Rightarrow> Context \<Rightarrow> string \<Rightarrow> string \<Rightarrow> Response option \<times> error option" where
  "Post w c ctx url body =
     (case limiterWait w CallLimiter ctx of
        Some err \<Rightarrow> (None, Some (Errorf ''client: unable to perform Post: '' err))
      | None \<Rightarrow> Do w c ''POST'' url (Some body))"

text \<open>
  A line written by \<^verbatim>\<open>log.Printf\<close> or \<^verbatim>\<open>log.Println\<close>: the format and its
  arguments.
\<close>

datatype logarg = AStr string | AErr error | AInt int

datatype log = Log string "logarg list"

text \<open>
  \<^verbatim>\<open>Client.call\<close>: encode the payload, post it. In the payload \<^verbatim>\<open>From\<close> is a
  \<^verbatim>\<open>Contact\<close> with no name; the \<^verbatim>\<open>Number\<close> field of \<^verbatim>\<open>Client\<close> is \<open>ClientNumber\<close>
  here.
\<close>

definition callPayload :: "Client \<Rightarrow> Contact \<Rightarrow> string \<Rightarrow> json" where
  "callPayload c to recName =
     JObject
       [(''to'', JArray [marshalContact to]),
        (''from'', marshalContact \<lparr>Name = [], Type = ''phone'', Number = ClientNumber c\<rparr>),
        (''answer_url'', JArray [JString (Origin c @ ''/play/recording/'' @ recName)]),
        (''event_url'', JArray [JString (Origin c @ ''/play/recording/event'')])]"

definition call :: "World \<Rightarrow> Client \<Rightarrow> Context \<Rightarrow> Contact \<Rightarrow> string \<Rightarrow> error option" where
  "call w c ctx to recName =
     (case jsonEncode w (callPayload c to recName) of
        Inl err \<Rightarrow> Some (Errorf ''unable to encode ncco: '' err)
      | Inr buf \<Rightarrow>
          (case Post w c ctx ''https://api.nexmo.com/v1/calls'' buf of
             (_, Some err) \<Rightarrow> Some (Errorf ''unable to make call: '' err)
           | (_, None) \<Rightarrow> None))"

text \<open>
  A goroutine started by \<^verbatim>\<open>Client.Call\<close>: its argument \<^verbatim>\<open>contact\<close> and the
  variables its closure captures, \<^verbatim>\<open>contacts\<close> and \<^verbatim>\<open>recName\<close>.
\<close>

record Goroutine =
  contact :: Contact
  contacts :: "Contact list"
  recName :: string

text \<open>
  The first lines of the goroutine: \<^verbatim>\<open>d\<close>, the number of seconds, and the
  context made from it. \<^verbatim>\<open>len(contacts) / 3 * 2\<close> cannot overflow an \<^verbatim>\<open>int\<close>;
  \<^verbatim>\<open>time.Second * time.Duration(d)\<close> is a product of 64-bit integers, which
  wraps around.
\<close>

definition deadlineSeconds :: "Goroutine \<Rightarrow> nat" where
  "deadlineSeconds g =
     (let n = length (contacts g) div 3;
          n = (if n < 1 then 1 else n);
          d = n * 2
      in d)"

definition goroutineContext :: "Goroutine \<Rightarrow> Context" where
  "goroutineContext g = WithTimeout Background (Second * of_nat (deadlineSeconds g))"

text \<open>The body of the goroutine in the world it meets: the lines it logs.\<close>

definition goroutineBody :: "World \<Rightarrow> Client \<Rightarrow> Goroutine \<Rightarrow> log list" where
  "goroutineBody w c g =
     Log ''calling %v, message: %v'' [AStr (Name (contact g)), AStr (recName g)] #
     (case call w c (goroutineContext g) (contact g) (recName g) of
        Some err \<Rightarrow> [Log ''call error: %v'' [AErr err]]
      | None \<Rightarrow> [])"

text \<open>
  The collaborator behind \<^verbatim>\<open>ContactsProvider\<close> and \<^verbatim>\<open>Storage\<close>: what each
  reader writes and returns when it is called, and what \<^verbatim>\<open>WriteRec\<close> returns
  for a content and a file name.
\<close>

record Storage =
  ReadBroadcastList :: "string \<times> error option"
  ReadWhitelist :: "string \<times> error option"
  WriteRec :: "string \<Rightarrow> string \<Rightarrow> error + string"

text \<open>
  \<^verbatim>\<open>Client.Call\<close>: the lines it logs itself and the goroutines it starts, in the
  order of the \<^verbatim>\<open>go\<close> statements. Call waits for none of them. \<open>CallDecoded\<close> is
  the body of \<^verbatim>\<open>Call\<close> after its first statement, as a function of what
  \<^verbatim>\<open>DecodeContacts\<close> returned there.
\<close>

record CallResult =
  callLog :: "log list"
  started :: "Goroutine list"

definition CallDecoded :: "Client \<Rightarrow> string \<Rightarrow> Contact list \<times> error option \<Rightarrow> CallResult" where
  "CallDecoded c rname decoded =
     (case decoded of
        (cs, Some err) \<Rightarrow>
          if err = ErrCorruptedContacts then
            \<lparr>callLog = [Log ''call: %v'' [AErr err],
                        Log ''client: contacts decoded: %d'' [AInt (int (length cs))]],
             started = map (\<lambda>v. \<lparr>contact = v, contacts = cs, recName = rname\<rparr>) cs\<rparr>
          else \<lparr>callLog = [Log ''call error: %v'' [AErr err]], started = []\<rparr>
      | (cs, None) \<Rightarrow>
          \<lparr>callLog = [Log ''client: contacts decoded: %d'' [AInt (int (length cs))]],
           started = map (\<lambda>v. \<lparr>contact = v, contacts = cs, recName = rname\<rparr>) cs\<rparr>)"

definition Call :: "Client \<Rightarrow> Storage \<Rightarrow> string \<Rightarrow> CallResult" where
  "Call c p rname = CallDecoded c rname (DecodeContacts (ReadBroadcastList p))"

section \<open>The webhook handlers\<close>

text \<open>
  What a handler reads of its \<^verbatim>\<open>*http.Request\<close>: the method, the values of the
  URL's query and the body as \<^verbatim>\<open>json.Decoder\<close> reads it (a JSON value, or the
  error of a body that is not JSON). What it does to its \<^verbatim>\<open>ResponseWriter\<close>: the
  status passed to \<^verbatim>\<open>WriteHeader\<close> (\<open>None\<close>: never called), the headers set and
  what was written, a JSON value or the text of an error (\<^verbatim>\<open>http.Error\<close>).
\<close>

record ServerRequest =
  Method :: string
  Query :: "(string \<times> string) list"
  Body :: "error + json"

datatype written = WJson json | WErrorText error

record ResponseWriter =
  Code :: "nat option"
  Header :: "(string \<times> string) list"
  Written :: "written list"

definition newResponseWriter :: ResponseWriter where
  "newResponseWriter = \<lparr>Code = None, Header = [], Written = []\<rparr>"

definition StatusOK :: nat where "StatusOK = 200"
definition StatusUnauthorized :: nat where "StatusUnauthorized = 401"
definition StatusInternalServerError :: nat where "StatusInternalServerError = 500"

definition recFormat :: string where
  "recFormat = ''mp3''"

definition callerFromRequestBody :: "error + json \<Rightarrow> error + string" where
  "callerFromRequestBody p =
     (case decodeStruct p [(''from'', [])] of
        Inl err \<Rightarrow> Inl (Errorf ''unable to find calling number in request body: '' err)
      | Inr body \<Rightarrow> Inr (field ''from'' body))"

text \<open>\<^verbatim>\<open>r.URL.Query().Get("from")\<close> is the first value of the key, or the empty string.\<close>

definition callerFromRequestQuery :: "ServerRequest \<Rightarrow> error + string" where
  "callerFromRequestQuery r =
     (let frm = (case map_of (Query r) ''from'' of None \<Rightarrow> [] | Some v \<Rightarrow> v)
      in if frm = [] then Inl (ErrorString ''unable to find calling number in query parameters'')
         else Inr frm)"

definition CallerFromRequest :: "ServerRequest \<Rightarrow> error + string" where
  "CallerFromRequest r =
     (if Method r = ''POST'' then callerFromRequestBody (Body r)
      else callerFromRequestQuery r)"

text \<open>The loop of the answer handler over the whitelist: the last contact with the caller's number.\<close>

fun findCaller :: "string \<Rightarrow> Contact list \<Rightarrow> Contact option \<Rightarrow> Contact option" where
  "findCaller frm [] caller = caller"
| "findCaller frm (v # vs) caller = findCaller frm vs (if Number v = frm then Some v else caller)"

text \<open>
  The instructions of the answer handler. \<^verbatim>\<open>encoding/json\<close> writes the keys of a
  map in sorted order.
\<close>

definition answerNCCO :: "string \<Rightarrow> Contact \<Rightarrow> json" where
  "answerNCCO origin caller =
     JArray
       [JObject
          [(''action'', JString ''talk''),
           (''level'', JNumber ''0.5''),
           (''text'', JString (''Parla pure'' @ Name caller)),
           (''voiceName'', JString ''Carla'')],
        JObject
          [(''action'', JString ''record''),
           (''beepStart'', JBool True),
           (''endOnKey'', JString ''#''),
           (''eventUrl'', JArray [JString (origin @ ''/store/recording/event'')]),
           (''format'', JString recFormat)]]"

text \<open>The handler made by \<^verbatim>\<open>makeRecordAnswerHandler\<close>: the writer afterwards and the lines logged.\<close>

definition recordAnswerHandler :: "Storage \<Rightarrow> string \<Rightarrow> ServerRequest \<Rightarrow> ResponseWriter \<times> log list" where
  "recordAnswerHandler s origin r =
     (case CallerFromRequest r of
        Inl err \<Rightarrow>
          (newResponseWriter\<lparr>Code := Some StatusUnauthorized\<rparr>,
           [Log ''answer handler: %v'' [AErr err]])
      | Inr frm \<Rightarrow>
          (case DecodeContacts (ReadWhitelist s) of
             (whitelist, Some err) \<Rightarrow>
               (newResponseWriter\<lparr>Code := Some StatusInternalServerError\<rparr>,
                [Log ''answer handler: authenticating %s...'' [AStr frm],
                 Log ''answer handler: unable to decode whitelist: %v'' [AErr err]])
           | (whitelist, None) \<Rightarrow>
               (case findCaller frm whitelist None of
                  None \<Rightarrow>
                    (newResponseWriter\<lparr>Code := Some StatusUnauthorized\<rparr>,
                     [Log ''answer handler: authenticating %s...'' [AStr frm],
                      Log ''answer handler: number %s cannot broadcast'' [AStr frm]])
                | Some caller \<Rightarrow>
                    (newResponseWriter
                       \<lparr>Code := Some StatusOK,
                        Header := [(''content-type'', ''application/json'')],
                        Written := [WJson (answerNCCO origin caller)]\<rparr>,
                     [Log ''answer handler: authenticating %s...'' [AStr frm]]))))"

text \<open>
  The handler made by \<^verbatim>\<open>makeStoreRecordingEventHandler\<close>: the writer afterwards,
  the lines logged, the calls of \<^verbatim>\<open>WriteRec\<close> (content and file name) and the
  calls of \<^verbatim>\<open>Client.Call\<close> (the recording name and what the call did).
  \<^verbatim>\<open>Client.Get\<close> never returns a nil response with a nil error (lemma
  \<open>Get_response_or_error\<close>), so the second case below is never taken.
\<close>

record StoreResult =
  writer :: ResponseWriter
  storeLog :: "log list"
  writeRecCalls :: "(string \<times> string) list"
  callCalls :: "(string \<times> CallResult) list"

definition storeRecordingEventHandler :: "World \<Rightarrow> Storage \<Rightarrow> Client \<Rightarrow> ServerRequest \<Rightarrow> StoreResult" where
  "storeRecordingEventHandler w s c r =
     (if Method r \<noteq> ''POST'' then
        \<lparr>writer = newResponseWriter, storeLog = [], writeRecCalls = [], callCalls = []\<rparr>
      else
        (case decodeStruct (Body r) [(''recording_url'', []), (''recording_uuid'', [])] of
           Inl err \<Rightarrow>
             \<lparr>writer = newResponseWriter
                 \<lparr>Code := Some StatusInternalServerError,
                  Header := [(''X-Content-Type-Options'', ''nosniff''),
                             (''Content-Type'', ''text/plain; charset=utf-8'')],
                  Written := [WErrorText err]\<rparr>,
              storeLog = [Log ''store recording handler error: unable to decode recorinding event: %v'' [AErr err]],
              writeRecCalls = [], callCalls = []\<rparr>
         | Inr content \<Rightarrow>
             (case Get w c Background (field ''recording_url'' content) of
                (_, Some err) \<Rightarrow>
                  \<lparr>writer = newResponseWriter,
                   storeLog = [Log ''store recording handler error: unable to download file: %v'' [AErr err]],
                   writeRecCalls = [], callCalls = []\<rparr>
              | (None, None) \<Rightarrow>
                  \<lparr>writer = newResponseWriter, storeLog = [], writeRecCalls = [], callCalls = []\<rparr>
              | (Some resp, None) \<Rightarrow>
                  (let rname = field ''recording_uuid'' content @ ''.'' @ recFormat
                   in (case WriteRec s (RespBody resp) rname of
                         Inl err \<Rightarrow>
                           \<lparr>writer = newResponseWriter, storeLog = [Log ''%v'' [AErr err]],
                            writeRecCalls = [(RespBody resp, rname)], callCalls = []\<rparr>
                       | Inr path \<Rightarrow>
                           \<lparr>writer = newResponseWriter, storeLog = [],
                            writeRecCalls = [(RespBody resp, rname)],
                            callCalls = [(rname, Call c s rname)]\<rparr>)))))"

section \<open>Example inputs\<close>

text \<open>A client, a storage whose two directories hold the same bytes, and a world that answers every request with one status.\<close>

definition exampleClient :: Client where
  "exampleClient = \<lparr>AppID = ''app'', ClientNumber = ''39000'', Origin = ''https://voice.example'', key = Some ''pem''\<rparr>"

definition storageOf :: "string \<times> error option \<Rightarrow> Storage" where
  "storageOf f = \<lparr>ReadBroadcastList = f, ReadWhitelist = f, WriteRec = (\<lambda>content name. Inr (''recs/'' @ name))\<rparr>"

definition worldAnswering :: "int \<Rightarrow> string \<Rightarrow> World" where
  "worldAnswering code text =
     \<lparr>signedString = Inr ''jwt'',
      newRequestError = (\<lambda>method url. None),
      roundTrip = (\<lambda>req. Inr \<lparr>StatusCode = code, Status = text, RespBody = ''audio''\<rparr>),
      limiterWait = (\<lambda>l ctx. None),
      jsonEncode = (\<lambda>j. Inr ''{}'')\<rparr>"

text \<open>A recording-stored webhook, an answer request with its caller in the query, and an answer request whose body has no caller.\<close>

definition recordingEvent :: ServerRequest where
  "recordingEvent =
     \<lparr>Method = ''POST'', Query = [],
      Body = Inr (JObject [(''recording_url'', JString ''https://api.nexmo.com/v1/files/ABC''),
                           (''recording_uuid'', JString ''ABC''),
                           (''size'', JNumber ''12222'')])\<rparr>"

definition answerRequest :: "string \<Rightarrow> ServerRequest" where
  "answerRequest frm = \<lparr>Method = ''GET'', Query = [(''to'', ''39000''), (''from'', frm)], Body = Inl (ErrorString ''EOF'')\<rparr>"

definition callerlessRequest :: ServerRequest where
  "callerlessRequest =
     \<lparr>Method = ''POST'', Query = [],
      Body = Inr (JObject [(''to'', JString ''39000''), (''uuid'', JString ''aaaa-bbbb'')])\<rparr>"

section \<open>Properties of the reader\<close>

text \<open>A record that parses has at least one field.\<close>

lemma parseField_fields:
  "parseField q line inp buf dst = (Inr d, rest) \<Longrightarrow> length dst < length d"
proof (induction q line inp buf dst arbitrary: d rest rule: parseField.induct)
  case (1 quoted line inp buf dst)
  note IH = "1.IH" and eq = "1.prems" [unfolded parseField.simps [of quoted line inp buf dst]]
  show ?case
  proof (cases quoted)
    case False
    show ?thesis
    proof (cases "line = [] \<or> hd line \<noteq> quote")
      case True
      with False eq IH(1) [OF False True refl refl] show ?thesis
        by (fastforce simp: Let_def split: if_splits)
    next
      case nq: False
      with False eq IH(2) [OF False nq] show ?thesis by auto
    qed
  next
    case True
    then have q: "\<not> \<not> quoted" by simp
    show ?thesis
    proof (cases "dropWhile (\<lambda>c. c \<noteq> quote) line \<noteq> []")
      case found: True
      with True eq IH(3) [OF q refl refl found refl] IH(4) [OF q refl refl found refl]
      show ?thesis by (fastforce simp: Let_def split: if_splits)
    next
      case nf: False
      show ?thesis
      proof (cases "line = []")
        case True
        with \<open>quoted\<close> nf eq show ?thesis by (auto simp: Let_def)
      next
        case ne: False
        show ?thesis
        proof (cases "readLine inp")
          case None
          with \<open>quoted\<close> nf ne eq IH(5) [OF q refl refl nf ne None] show ?thesis
            by (auto simp: Let_def)
        next
          case (Some a)
          obtain l inp' where a: "a = (l, inp')" by (cases a)
          from \<open>quoted\<close> nf ne eq Some a have "parseField True l inp' (buf @ line) dst = (Inr d, rest)"
            by (auto simp: Let_def)
          from IH(6) [OF q refl refl nf ne Some a [symmetric] this]
          show ?thesis by simp
        qed
      qed
    qed
  qed
qed

lemma readRecord_fields: "readRecord r = (Some (Inr d), r') \<Longrightarrow> 0 < length d"
  by (auto simp: readRecord_def split: option.splits prod.splits sum.splits if_splits
      dest!: parseField_fields)

text \<open>How \<open>readRecord\<close> depends on \<open>FieldsPerRecord\<close>.\<close>

lemma readRecord_EOF:
  "readRecord r = (None, r') \<Longrightarrow> readRecord (r\<lparr>FieldsPerRecord := n\<rparr>) = (None, r'\<lparr>FieldsPerRecord := n\<rparr>)"
  by (auto simp: readRecord_def split: option.splits prod.splits sum.splits if_splits)

lemma readRecord_err:
  "FieldsPerRecord r < 0 \<Longrightarrow> readRecord r = (Some (Inl e), r') \<Longrightarrow>
   readRecord (r\<lparr>FieldsPerRecord := n\<rparr>) = (Some (Inl e), r'\<lparr>FieldsPerRecord := n\<rparr>)"
  by (auto simp: readRecord_def split: option.splits prod.splits sum.splits if_splits)

lemma readRecord_rec:
  "FieldsPerRecord r < 0 \<Longrightarrow> readRecord r = (Some (Inr d), r') \<Longrightarrow>
   readRecord (r\<lparr>FieldsPerRecord := n\<rparr>) =
     (if 0 < n then
        (if int (length d) \<noteq> n then (Some (Inl ErrFieldCount), r'\<lparr>FieldsPerRecord := n\<rparr>)
         else (Some (Inr d), r'\<lparr>FieldsPerRecord := n\<rparr>))
      else if n = 0 then (Some (Inr d), r'\<lparr>FieldsPerRecord := int (length d)\<rparr>)
      else (Some (Inr d), r'\<lparr>FieldsPerRecord := n\<rparr>))"
  by (auto simp: readRecord_def split: option.splits prod.splits sum.splits if_splits)

lemma readRecord_neg: "FieldsPerRecord r < 0 \<Longrightarrow> readRecord r = (x, r') \<Longrightarrow> FieldsPerRecord r' = FieldsPerRecord r"
  by (auto simp: readRecord_def split: option.splits prod.splits sum.splits if_splits)

lemma ReadAllLoop_EOF: "readRecord r = (None, r') \<Longrightarrow> ReadAllLoop r acc = Inr acc"
  by (subst ReadAllLoop.simps) simp

lemma ReadAllLoop_err: "readRecord r = (Some (Inl e), r') \<Longrightarrow> ReadAllLoop r acc = Inl e"
  by (subst ReadAllLoop.simps) simp

lemma ReadAllLoop_rec:
  "readRecord r = (Some (Inr d), r') \<Longrightarrow> ReadAllLoop r acc = ReadAllLoop r' (acc @ [d])"
  by (subst ReadAllLoop.simps) simp

lemma readRecord_cases:
  obtains (EOF) r' where "readRecord r = (None, r')"
  | (Err) e r' where "readRecord r = (Some (Inl e), r')"
  | (Rec) d r' where "readRecord r = (Some (Inr d), r')"
proof (cases "readRecord r")
  case (Pair x r')
  then show ?thesis
    by (cases x; cases "the x") (auto intro: EOF Err Rec)
qed

lemma ReadAllLoop_prefix:
  "ReadAllLoop r acc = Inr recs \<Longrightarrow> \<exists>new. recs = acc @ new"
proof (induction r acc rule: ReadAllLoop.induct)
  case (1 r records)
  show ?case
  proof (cases r rule: readRecord_cases)
    case (EOF r')
    with "1.prems" show ?thesis by (simp add: ReadAllLoop_EOF)
  next
    case (Err e r')
    with "1.prems" show ?thesis by (simp add: ReadAllLoop_err)
  next
    case (Rec d r')
    with "1.prems" have "ReadAllLoop r' (records @ [d]) = Inr recs" by (simp add: ReadAllLoop_rec)
    from "1.IH" [OF Rec [symmetric] refl refl this] show ?thesis by auto
  qed
qed

text \<open>
  Reading with a positive \<open>FieldsPerRecord\<close>, against reading the same bytes with no
  check of the number of fields.
\<close>

lemma ReadAllLoop_checked:
  assumes "FieldsPerRecord r < 0" and "0 < n"
  shows "ReadAllLoop r acc = Inr (acc @ new) \<Longrightarrow>
     ReadAllLoop (r\<lparr>FieldsPerRecord := n\<rparr>) acc =
       (if \<forall>x\<in>set new. int (length x) = n then Inr (acc @ new) else Inl ErrFieldCount)"
  using assms(1)
proof (induction r acc arbitrary: new rule: ReadAllLoop.induct)
  case (1 r records)
  note neg = \<open>FieldsPerRecord r < 0\<close>
  show ?case
  proof (cases r rule: readRecord_cases)
    case (EOF r')
    with "1.prems" have "new = []" by (simp add: ReadAllLoop_EOF)
    with EOF show ?thesis by (simp add: ReadAllLoop_EOF [OF readRecord_EOF])
  next
    case (Err e r')
    with "1.prems" show ?thesis by (simp add: ReadAllLoop_err)
  next
    case (Rec d r')
    with "1.prems" have run: "ReadAllLoop r' (records @ [d]) = Inr (records @ new)"
      by (simp add: ReadAllLoop_rec)
    from ReadAllLoop_prefix [OF this] obtain new' where new: "new = d # new'" by auto
    have neg': "FieldsPerRecord r' < 0" using readRecord_neg [OF neg Rec] neg by simp
    from run new have "ReadAllLoop r' ((records @ [d]) @ new') = ReadAllLoop r' ((records @ [d]) @ new')"
      by simp
    from run new have run': "ReadAllLoop r' (records @ [d]) = Inr ((records @ [d]) @ new')" by simp
    note IH = "1.IH" [OF Rec [symmetric] refl refl run' neg']
    show ?thesis
    proof (cases "int (length d) = n")
      case True
      with readRecord_rec [OF neg Rec, of n] assms(2)
      have "readRecord (r\<lparr>FieldsPerRecord := n\<rparr>) = (Some (Inr d), r'\<lparr>FieldsPerRecord := n\<rparr>)"
        by simp
      from ReadAllLoop_rec [OF this] IH True new show ?thesis by simp
    next
      case False
      with readRecord_rec [OF neg Rec, of n] assms(2)
      have "readRecord (r\<lparr>FieldsPerRecord := n\<rparr>) = (Some (Inl ErrFieldCount), r'\<lparr>FieldsPerRecord := n\<rparr>)"
        by simp
      from ReadAllLoop_err [OF this] False new show ?thesis by simp
    qed
  qed
qed

lemma ReadAllLoop_checked_err:
  assumes "FieldsPerRecord r < 0"
  shows "ReadAllLoop r acc = Inl e \<Longrightarrow> \<exists>e'. ReadAllLoop (r\<lparr>FieldsPerRecord := n\<rparr>) acc = Inl e'"
  using assms
proof (induction r acc arbitrary: n rule: ReadAllLoop.induct)
  case (1 r records)
  note neg = \<open>FieldsPerRecord r < 0\<close>
  show ?case
  proof (cases r rule: readRecord_cases)
    case (EOF r')
    with "1.prems" show ?thesis by (simp add: ReadAllLoop_EOF)
  next
    case (Err e' r')
    from ReadAllLoop_err [OF readRecord_err [OF neg Err]] show ?thesis by blast
  next
    case (Rec d r')
    with "1.prems" have run: "ReadAllLoop r' (records @ [d]) = Inl e"
      by (simp add: ReadAllLoop_rec)
    have neg': "FieldsPerRecord r' < 0" using readRecord_neg [OF neg Rec] neg by simp
    note IH = "1.IH" [OF Rec [symmetric] refl refl run neg']
    from readRecord_rec [OF neg Rec, of n]
    consider r'' where "readRecord (r\<lparr>FieldsPerRecord := n\<rparr>) = (Some (Inl ErrFieldCount), r'')"
      | m where "readRecord (r\<lparr>FieldsPerRecord := n\<rparr>) = (Some (Inr d), r'\<lparr>FieldsPerRecord := m\<rparr>)"
      by (auto split: if_splits)
    then show ?thesis
    proof cases
      case 1
      from ReadAllLoop_err [OF this] show ?thesis by blast
    next
      case 2
      from ReadAllLoop_rec [OF this] IH [of m] show ?thesis by simp
    qed
  qed
qed


lemma ReadAll_rows:
  assumes "csvRows buf = Inr rows"
  shows "ReadAll ((NewReader buf)\<lparr>Comment := Some (CHR ''#'')\<rparr>) =
           (if uniform rows then Inr rows else Inl ErrFieldCount)"
proof -
  define r where "r = (NewReader buf)\<lparr>Comment := Some (CHR ''#''), FieldsPerRecord := - 1\<rparr>"
  have neg: "FieldsPerRecord r < 0" by (simp add: r_def)
  have r0: "(NewReader buf)\<lparr>Comment := Some (CHR ''#'')\<rparr> = r\<lparr>FieldsPerRecord := 0\<rparr>"
    by (simp add: r_def NewReader_def)
  from assms have run: "ReadAllLoop r [] = Inr rows" by (simp add: csvRows_def ReadAll_def r_def)
  show ?thesis
  proof (cases r rule: readRecord_cases)
    case (EOF r')
    with run have "rows = []" by (simp add: ReadAllLoop_EOF)
    with EOF show ?thesis
      by (simp add: r0 ReadAll_def ReadAllLoop_EOF [OF readRecord_EOF] uniform_def)
  next
    case (Err e r')
    with run show ?thesis by (simp add: ReadAllLoop_err)
  next
    case (Rec d r')
    with run have run': "ReadAllLoop r' ([] @ [d]) = Inr rows" by (simp add: ReadAllLoop_rec)
    from ReadAllLoop_prefix [OF this] obtain new where rows: "rows = [d] @ new" by auto
    have neg': "FieldsPerRecord r' < 0" using readRecord_neg [OF neg Rec] neg by simp
    have pos: "0 < int (length d)" using readRecord_fields [OF Rec] by simp
    have "readRecord (r\<lparr>FieldsPerRecord := 0\<rparr>) = (Some (Inr d), r'\<lparr>FieldsPerRecord := int (length d)\<rparr>)"
      using readRecord_rec [OF neg Rec, of 0] by simp
    from ReadAllLoop_rec [OF this, of "[]"]
      ReadAllLoop_checked [OF neg' pos, of "[d]" new] run' rows
    show ?thesis by (auto simp: r0 ReadAll_def uniform_def)
  qed
qed

lemma ReadAll_rows_err:
  assumes "csvRows buf = Inl e"
  shows "\<exists>e'. ReadAll ((NewReader buf)\<lparr>Comment := Some (CHR ''#'')\<rparr>) = Inl e'"
proof -
  define r where "r = (NewReader buf)\<lparr>Comment := Some (CHR ''#''), FieldsPerRecord := - 1\<rparr>"
  have neg: "FieldsPerRecord r < 0" by (simp add: r_def)
  have r0: "(NewReader buf)\<lparr>Comment := Some (CHR ''#'')\<rparr> = r\<lparr>FieldsPerRecord := 0\<rparr>"
    by (simp add: r_def NewReader_def)
  from assms have "ReadAllLoop r [] = Inl e" by (simp add: csvRows_def ReadAll_def r_def)
  from ReadAllLoop_checked_err [OF neg this, of 0] show ?thesis by (simp add: r0 ReadAll_def)
qed

lemma decodeRecs_eq:
  "decodeRecs recs acc =
     acc @ map (\<lambda>rec. NewContact (rec ! 0) (rec ! 1)) (filter (\<lambda>rec. \<not> length rec < 2) recs)"
  by (induction recs arbitrary: acc) auto

lemma DecodeContacts_rows:
  assumes "csvRows buf = Inr rows"
  shows "DecodeContacts (buf, None) =
    (if \<not> uniform rows then ([], Some (Errorf ''decode contacts: '' (ParseError ErrFieldCount)))
     else if rows \<noteq> [] \<and> length (hd rows) < 2 then ([], Some ErrCorruptedContacts)
     else (map (\<lambda>rec. NewContact (rec ! 0) (rec ! 1)) rows, None))"
proof (cases "uniform rows")
  case False
  then show ?thesis by (simp add: DecodeContacts_def ReadAll_rows [OF assms])
next
  case True
  show ?thesis
  proof (cases "rows \<noteq> [] \<and> length (hd rows) < 2")
    case bad: True
    with True have "\<forall>x\<in>set rows. length x < 2"
      unfolding uniform_def by metis
    then have "filter (\<lambda>rec. \<not> length rec < 2) rows = []"
      by (simp add: filter_empty_conv)
    with True bad show ?thesis
      by (simp add: DecodeContacts_def ReadAll_rows [OF assms] decodeRecs_eq)
  next
    case good: False
    have "\<forall>x\<in>set rows. \<not> length x < 2"
    proof
      fix x assume x: "x \<in> set rows"
      then have "rows \<noteq> []" by auto
      with good have "\<not> length (hd rows) < 2" by simp
      moreover from True x have "length x = length (hd rows)" unfolding uniform_def by blast
      ultimately show "\<not> length x < 2" by simp
    qed
    then have "filter (\<lambda>rec. \<not> length rec < 2) rows = rows"
      by (simp add: filter_id_conv)
    with True good show ?thesis
      by (simp add: DecodeContacts_def ReadAll_rows [OF assms] decodeRecs_eq)
  qed
qed

lemma ReadAllLoop_fields:
  "ReadAllLoop r acc = Inr (acc @ new) \<Longrightarrow> x \<in> set new \<Longrightarrow> 0 < length x"
proof (induction r acc arbitrary: new rule: ReadAllLoop.induct)
  case (1 r records)
  show ?case
  proof (cases r rule: readRecord_cases)
    case (EOF r')
    with "1.prems" show ?thesis by (simp add: ReadAllLoop_EOF)
  next
    case (Err e r')
    with "1.prems" show ?thesis by (simp add: ReadAllLoop_err)
  next
    case (Rec d r')
    with "1.prems" have run: "ReadAllLoop r' (records @ [d]) = Inr (records @ new)"
      by (simp add: ReadAllLoop_rec)
    from ReadAllLoop_prefix [OF this] obtain new' where new: "new = d # new'" by auto
    with run have run': "ReadAllLoop r' (records @ [d]) = Inr ((records @ [d]) @ new')" by simp
    from "1.prems"(2) new consider "x = d" | "x \<in> set new'" by auto
    then show ?thesis
    proof cases
      case 1
      with readRecord_fields [OF Rec] show ?thesis by simp
    next
      case 2
      from "1.IH" [OF Rec [symmetric] refl refl run' 2] show ?thesis .
    qed
  qed
qed

lemma csvRows_fields: "csvRows buf = Inr rows \<Longrightarrow> x \<in> set rows \<Longrightarrow> 0 < length x"
  using ReadAllLoop_fields [of _ "[]" rows x] by (simp add: csvRows_def ReadAll_def)

lemma ReadAll_Inr:
  assumes "ReadAll ((NewReader buf)\<lparr>Comment := Some (CHR ''#'')\<rparr>) = Inr recs"
  shows "csvRows buf = Inr recs" and "uniform recs"
proof -
  show "csvRows buf = Inr recs"
  proof (cases "csvRows buf")
    case (Inl e)
    from ReadAll_rows_err [OF this] assms show ?thesis by auto
  next
    case (Inr rows)
    from ReadAll_rows [OF this] assms Inr show ?thesis by (auto split: if_splits)
  qed
  from ReadAll_rows [OF this] assms show "uniform recs" by (auto split: if_splits)
qed

lemma DecodeContacts_error_empty:
  assumes "DecodeContacts f = (cs, Some e)"
  shows "cs = []"
proof (cases f)
  case (Pair buf ferr)
  show ?thesis
  proof (cases ferr)
    case (Some a)
    with Pair assms show ?thesis by (simp add: DecodeContacts_def)
  next
    case None
    show ?thesis
    proof (cases "csvRows buf")
      case (Inl e')
      from ReadAll_rows_err [OF this] obtain e'' where
        "ReadAll ((NewReader buf)\<lparr>Comment := Some (CHR ''#'')\<rparr>) = Inl e''" by blast
      with Pair None assms show ?thesis by (simp add: DecodeContacts_def)
    next
      case (Inr rows)
      from DecodeContacts_rows [OF this] Pair None assms show ?thesis
        by (auto split: if_splits)
    qed
  qed
qed

lemma DecodeContacts_mixed:
  assumes "csvRows buf = Inr rows"
    and "r1 \<in> set rows" and "2 \<le> length r1" and "r2 \<in> set rows" and "length r2 < 2"
  shows "DecodeContacts (buf, None) =
           ([], Some (Errorf ''decode contacts: '' (ParseError ErrFieldCount)))"
proof -
  from assms(2-5) have "\<not> uniform rows" unfolding uniform_def by force
  with DecodeContacts_rows [OF assms(1)] show ?thesis by simp
qed

lemma DecodeContacts_all_malformed:
  assumes "csvRows buf = Inr rows" and "rows \<noteq> []" and "\<forall>r\<in>set rows. length r < 2"
  shows "DecodeContacts (buf, None) = ([], Some ErrCorruptedContacts)"
proof -
  have "length x = 1" if "x \<in> set rows" for x
  proof -
    from assms(3) that have "length x < 2" by blast
    with csvRows_fields [OF assms(1) that] show ?thesis by linarith
  qed
  then have u: "uniform rows" unfolding uniform_def using assms(2) by simp
  from assms(2,3) have "length (hd rows) < 2" by simp
  with DecodeContacts_rows [OF assms(1)] u assms(2) show ?thesis by simp
qed

section \<open>Decoding a contact directory\<close>

text \<open>
  C1. A directory with at least one well-formed row (two or more fields) and at
  least one malformed row (fewer than two) is meant to decode to the contacts
  of the well-formed rows together with \<open>ErrCorruptedContacts\<close>. The reader is
  left with \<^verbatim>\<open>FieldsPerRecord = 0\<close>, so it takes the number of fields of the first
  row as the number every row must have: on the directory of the two rows
  \<^verbatim>\<open>a,b\<close> and \<^verbatim>\<open>c\<close> the decode returns no contact and a wrapped
  \<^verbatim>\<open>csv.ErrFieldCount\<close>, not the contact of the first row with
  \<open>ErrCorruptedContacts\<close>. (\<open>DecodeContacts_mixed\<close> shows the same for every
  such directory, \<open>DecodeContacts_all_malformed\<close> that a directory of
  malformed rows alone decodes to no contact and \<open>ErrCorruptedContacts\<close>.)
\<close>

theorem DecodeContacts_mixed_rows_fail:
  "csvRows ''a,b\<newline>c\<newline>'' = Inr [[''a'', ''b''], [''c'']] \<and>
   DecodeContacts (''a,b\<newline>c\<newline>'', None) =
     ([], Some (Errorf ''decode contacts: '' (ParseError ErrFieldCount)))"
  by code_simp

text \<open>
  C9. When every row of the directory (comment lines and empty lines are no
  rows) has the same number of fields, and that number is at least two,
  \<open>DecodeContacts\<close> returns one contact for every row, in the order of the rows,
  and no error.
\<close>

theorem DecodeContacts_well_formed:
  assumes "csvRows buf = Inr rows" and "\<forall>r\<in>set rows. length r = n" and "2 \<le> n"
  shows "DecodeContacts (buf, None) = (map (\<lambda>rec. NewContact (rec ! 0) (rec ! 1)) rows, None)"
proof -
  from assms(2) have u: "uniform rows" unfolding uniform_def by (cases rows) auto
  from assms(2,3) have "\<not> (rows \<noteq> [] \<and> length (hd rows) < 2)" by (cases rows) auto
  with DecodeContacts_rows [OF assms(1)] u show ?thesis by simp
qed

lemma rows_example:
  "csvRows ''a,b\<newline>#c\<newline>\<newline>d,\"e,f\"'' = Inr [[''a'', ''b''], [''d'', ''e,f'']]"
  by code_simp

theorem DecodeContacts_well_formed_witness:
  "csvRows ''a,b\<newline>#c\<newline>\<newline>d,\"e,f\"'' = Inr [[''a'', ''b''], [''d'', ''e,f'']] \<and>
   DecodeContacts (''a,b\<newline>#c\<newline>\<newline>d,\"e,f\"'', None) =
     ([\<lparr>Name = ''b'', Type = ''phone'', Number = ''a''\<rparr>,
       \<lparr>Name = ''e,f'', Type = ''phone'', Number = ''d''\<rparr>], None)"
  using DecodeContacts_well_formed [OF rows_example, of 2]
  by (simp add: rows_example NewContact_def)

section \<open>The authenticated transport\<close>

lemma Do_response: "Do w c method url body = (Some resp, err) \<Longrightarrow> err = checkStatus resp"
  by (auto simp: Do_def Let_def split: sum.splits option.splits)

lemma Get_response: "Get w c ctx url = (Some resp, err) \<Longrightarrow> err = checkStatus resp"
  by (auto simp: Get_def split: option.splits dest: Do_response)

lemma Post_response: "Post w c ctx url body = (Some resp, err) \<Longrightarrow> err = checkStatus resp"
  by (auto simp: Post_def split: option.splits dest: Do_response)

lemma Do_response_or_error: "Do w c method url body \<noteq> (None, None)"
  by (auto simp: Do_def Let_def split: sum.splits option.splits)

lemma Get_response_or_error: "Get w c ctx url \<noteq> (None, None)"
  by (auto simp: Get_def Do_response_or_error split: option.splits)

text \<open>
  C5. Whenever \<open>Do\<close>, \<open>Get\<close> or \<open>Post\<close> obtains a response, the call succeeds (its
  error is nil) exactly when the status code is 200 or 201; with any other
  status code its error is the request-failed error carrying the status text
  of the response.
\<close>

theorem transport_status:
  assumes "Do w c method url body = (Some resp, err) \<or> Get w c ctx url = (Some resp, err) \<or>
           Post w c ctx url b = (Some resp, err)"
  shows "(err = None \<longleftrightarrow> StatusCode resp = 200 \<or> StatusCode resp = 201) \<and>
         (err \<noteq> None \<longrightarrow> err = Some (ErrorString (''request failed: '' @ Status resp)))"
proof -
  from assms have "err = checkStatus resp"
    by (auto dest: Do_response Get_response Post_response)
  then show ?thesis by (simp add: checkStatus_def)
qed

lemma Post_created_example:
  "Post (worldAnswering 201 ''201 Created'') exampleClient Background ''https://api.nexmo.com/v1/calls'' ''{}'' =
     (Some \<lparr>StatusCode = 201, Status = ''201 Created'', RespBody = ''audio''\<rparr>, None)"
  by (simp add: Post_def Do_def Token_def checkStatus_def worldAnswering_def exampleClient_def Let_def)

lemma Get_not_found_example:
  "Get (worldAnswering 404 ''404 Not Found'') exampleClient Background ''https://api.nexmo.com/rec'' =
     (Some \<lparr>StatusCode = 404, Status = ''404 Not Found'', RespBody = ''audio''\<rparr>,
      Some (ErrorString ''request failed: 404 Not Found''))"
  by (simp add: Get_def Do_def Token_def checkStatus_def worldAnswering_def exampleClient_def Let_def)

theorem transport_status_witness:
  "Post (worldAnswering 201 ''201 Created'') exampleClient Background ''https://api.nexmo.com/v1/calls'' ''{}'' =
     (Some \<lparr>StatusCode = 201, Status = ''201 Created'', RespBody = ''audio''\<rparr>, None) \<and>
   Get (worldAnswering 404 ''404 Not Found'') exampleClient Background ''https://api.nexmo.com/rec'' =
     (Some \<lparr>StatusCode = 404, Status = ''404 Not Found'', RespBody = ''audio''\<rparr>,
      Some (ErrorString ''request failed: 404 Not Found'')) \<and>
   StatusCode \<lparr>StatusCode = 404, Status = ''404 Not Found'', RespBody = ''audio''\<rparr> \<noteq> 200 \<and>
   StatusCode \<lparr>StatusCode = 404, Status = ''404 Not Found'', RespBody = ''audio''\<rparr> \<noteq> 201"
  using transport_status [OF disjI2 [OF disjI2 [OF Post_created_example]]]
    transport_status [OF disjI2 [OF disjI1 [OF Get_not_found_example]]]
  by (simp add: Post_created_example Get_not_found_example)

section \<open>The broadcast\<close>

lemma started_Call:
  assumes "DecodeContacts (ReadBroadcastList p) = (cs, err)"
  shows "started (Call c p rname) =
    (if err = None \<or> err = Some ErrCorruptedContacts
     then map (\<lambda>v. \<lparr>contact = v, contacts = cs, recName = rname\<rparr>) cs else [])"
  using assms by (auto simp: Call_def CallDecoded_def split: option.splits)

lemma decode_mixed_example:
  "DecodeContacts (ReadBroadcastList (storageOf (''a,b\<newline>c\<newline>'', None))) =
     ([], Some (Errorf ''decode contacts: '' (ParseError ErrFieldCount)))"
  unfolding storageOf_def by code_simp

lemma decode_malformed_example:
  "DecodeContacts (ReadBroadcastList (storageOf (''c\<newline>'', None))) = ([], Some ErrCorruptedContacts)"
  unfolding storageOf_def by code_simp

text \<open>
  C7. \<open>Call\<close> is its body after decoding, run on what \<open>DecodeContacts\<close> returned
  for the broadcast list. Whatever contacts come with the error: when the
  error is not \<open>ErrCorruptedContacts\<close>, the body logs the error and returns,
  having started no call attempt (it does not reach the line that logs the
  number of contacts); when the error is \<open>ErrCorruptedContacts\<close>, it logs it,
  goes on to log the number of contacts and starts one attempt for each of
  the contacts returned, in their order, and for nothing else.
\<close>

theorem Call_decode_errors:
  "Call c p rname = CallDecoded c rname (DecodeContacts (ReadBroadcastList p)) \<and>
   (err \<noteq> ErrCorruptedContacts \<longrightarrow>
      started (CallDecoded c rname (cs, Some err)) = [] \<and>
      callLog (CallDecoded c rname (cs, Some err)) = [Log ''call error: %v'' [AErr err]]) \<and>
   map contact (started (CallDecoded c rname (cs, Some ErrCorruptedContacts))) = cs \<and>
   (\<forall>g\<in>set (started (CallDecoded c rname (cs, Some ErrCorruptedContacts))).
      recName g = rname \<and> contacts g = cs) \<and>
   callLog (CallDecoded c rname (cs, Some ErrCorruptedContacts)) =
     [Log ''call: %v'' [AErr ErrCorruptedContacts],
      Log ''client: contacts decoded: %d'' [AInt (int (length cs))]] \<and>
   (DecodeContacts (ReadBroadcastList p) = (cs, Some err) \<longrightarrow>
      (err \<noteq> ErrCorruptedContacts \<longrightarrow>
         started (Call c p rname) = [] \<and>
         callLog (Call c p rname) = [Log ''call error: %v'' [AErr err]]) \<and>
      (err = ErrCorruptedContacts \<longrightarrow>
         map contact (started (Call c p rname)) = cs \<and>
         callLog (Call c p rname) =
           [Log ''call: %v'' [AErr ErrCorruptedContacts],
            Log ''client: contacts decoded: %d'' [AInt (int (length cs))]]))"
  by (auto simp: Call_def CallDecoded_def comp_def)

theorem Call_decode_errors_witness:
  "started (CallDecoded exampleClient ''ABC.mp3''
      ([\<lparr>Name = ''Ada'', Type = ''phone'', Number = ''39111''\<rparr>,
        \<lparr>Name = ''Bob'', Type = ''phone'', Number = ''39222''\<rparr>],
       Some (ErrorString ''unexpected EOF''))) = [] \<and>
   map contact (started (CallDecoded exampleClient ''ABC.mp3''
      ([\<lparr>Name = ''Ada'', Type = ''phone'', Number = ''39111''\<rparr>,
        \<lparr>Name = ''Bob'', Type = ''phone'', Number = ''39222''\<rparr>],
       Some ErrCorruptedContacts))) =
     [\<lparr>Name = ''Ada'', Type = ''phone'', Number = ''39111''\<rparr>,
      \<lparr>Name = ''Bob'', Type = ''phone'', Number = ''39222''\<rparr>] \<and>
   started (Call exampleClient (storageOf (''a,b\<newline>c\<newline>'', None)) ''ABC.mp3'') = [] \<and>
   callLog (Call exampleClient (storageOf (''a,b\<newline>c\<newline>'', None)) ''ABC.mp3'') =
     [Log ''call error: %v'' [AErr (Errorf ''decode contacts: '' (ParseError ErrFieldCount))]] \<and>
   map contact (started (Call exampleClient (storageOf (''c\<newline>'', None)) ''ABC.mp3'')) = [] \<and>
   callLog (Call exampleClient (storageOf (''c\<newline>'', None)) ''ABC.mp3'') =
     [Log ''call: %v'' [AErr ErrCorruptedContacts], Log ''client: contacts decoded: %d'' [AInt 0]]"
proof -
  let ?cs = "[\<lparr>Name = ''Ada'', Type = ''phone'', Number = ''39111''\<rparr>,
              \<lparr>Name = ''Bob'', Type = ''phone'', Number = ''39222''\<rparr>]"
  note a = Call_decode_errors [of exampleClient "storageOf (''a,b\<newline>c\<newline>'', None)" "''ABC.mp3''"
      "ErrorString ''unexpected EOF''" ?cs]
  note b = Call_decode_errors [of exampleClient "storageOf (''a,b\<newline>c\<newline>'', None)" "''ABC.mp3''"
      "Errorf ''decode contacts: '' (ParseError ErrFieldCount)" "[]"]
  note c = Call_decode_errors [of exampleClient "storageOf (''c\<newline>'', None)" "''ABC.mp3''"
      ErrCorruptedContacts "[]"]
  from a have 1: "started (CallDecoded exampleClient ''ABC.mp3'' (?cs, Some (ErrorString ''unexpected EOF''))) = []"
    and 2: "map contact (started (CallDecoded exampleClient ''ABC.mp3'' (?cs, Some ErrCorruptedContacts))) = ?cs"
    by simp_all
  from b decode_mixed_example
  have 3: "started (Call exampleClient (storageOf (''a,b\<newline>c\<newline>'', None)) ''ABC.mp3'') = []"
    and 4: "callLog (Call exampleClient (storageOf (''a,b\<newline>c\<newline>'', None)) ''ABC.mp3'') =
     [Log ''call error: %v'' [AErr (Errorf ''decode contacts: '' (ParseError ErrFieldCount))]]"
    by simp_all
  from c decode_malformed_example
  have 5: "map contact (started (Call exampleClient (storageOf (''c\<newline>'', None)) ''ABC.mp3'')) = []"
    and 6: "callLog (Call exampleClient (storageOf (''c\<newline>'', None)) ''ABC.mp3'') =
     [Log ''call: %v'' [AErr ErrCorruptedContacts], Log ''client: contacts decoded: %d'' [AInt 0]]"
    by simp_all
  from 1 2 3 4 5 6 show ?thesis by simp
qed

lemma sint_word_of_int_64:
  "- (2 ^ 63) \<le> k \<Longrightarrow> k < 2 ^ 63 \<Longrightarrow> sint (word_of_int k :: 64 word) = k"
  by (simp add: sint_sbintrunc' signed_take_bit_int_eq_self)

lemma sint_seconds:
  assumes "d < 9223372037"
  shows "sint (Second * (of_nat d :: Duration)) = int d * 1000000000"
proof -
  have e: "Second * (of_nat d :: Duration) = word_of_int (int d * 1000000000)"
    by (simp add: Second_def)
  have b: "- (2 ^ 63) \<le> int d * 1000000000" "int d * 1000000000 < 2 ^ 63"
    using assms by simp_all
  show ?thesis unfolding e by (rule sint_word_of_int_64 [OF b])
qed

text \<open>
  C4. The deadline of every call attempt of a broadcast over \<open>cs\<close> is
  \<open>max 1 (length cs div 3) * 2\<close> seconds, 3 being the rate of \<open>CallLimiter\<close>: that
  is the number of seconds \<^verbatim>\<open>d\<close> of the goroutine, and for lists of fewer than
  13835058057 contacts the \<^verbatim>\<open>time.Duration\<close> made from it is that many seconds
  (the 64-bit product does not wrap around).
\<close>

theorem call_deadline:
  assumes "DecodeContacts (ReadBroadcastList p) = (cs, err)"
    and "g \<in> set (started (Call c p rname))"
  shows "deadlineSeconds g = max 1 (length cs div rate CallLimiter) * 2 \<and>
         (\<exists>d. timeout (goroutineContext g) = Some d \<and>
              (length cs < 13835058057 \<longrightarrow>
                 sint d = int (max 1 (length cs div rate CallLimiter) * 2) * 1000000000))"
proof -
  from assms have g: "contacts g = cs"
    by (auto simp: started_Call [OF assms(1)] split: if_splits)
  then have s: "deadlineSeconds g = max 1 (length cs div rate CallLimiter) * 2"
    by (simp add: deadlineSeconds_def CallLimiter_def Let_def max_def)
  have t: "timeout (goroutineContext g) = Some (Second * of_nat (deadlineSeconds g))"
    by (simp add: goroutineContext_def WithTimeout_def)
  have "sint (Second * (of_nat (deadlineSeconds g) :: Duration)) = int (deadlineSeconds g) * 1000000000"
    if "length cs < 13835058057"
  proof (rule sint_seconds)
    from that have "length cs div 3 \<le> 4611686018" by simp
    then show "deadlineSeconds g < 9223372037"
      by (simp add: deadlineSeconds_def g Let_def)
  qed
  with s t show ?thesis by simp
qed


lemma decode_seven_example:
  "DecodeContacts (ReadBroadcastList
      (storageOf (''1,a\<newline>2,b\<newline>3,c\<newline>4,d\<newline>5,e\<newline>6,f\<newline>7,g\<newline>'', None))) =
     (map (\<lambda>(n, m). \<lparr>Name = m, Type = ''phone'', Number = n\<rparr>)
        [(''1'', ''a''), (''2'', ''b''), (''3'', ''c''), (''4'', ''d''), (''5'', ''e''), (''6'', ''f''),
         (''7'', ''g'')], None)"
  unfolding storageOf_def by code_simp

lemma started_seven_example:
  "\<lparr>contact = \<lparr>Name = ''a'', Type = ''phone'', Number = ''1''\<rparr>,
    contacts = map (\<lambda>(n, m). \<lparr>Name = m, Type = ''phone'', Number = n\<rparr>)
        [(''1'', ''a''), (''2'', ''b''), (''3'', ''c''), (''4'', ''d''), (''5'', ''e''), (''6'', ''f''),
         (''7'', ''g'')],
    recName = ''ABC.mp3''\<rparr>
   \<in> set (started (Call exampleClient
      (storageOf (''1,a\<newline>2,b\<newline>3,c\<newline>4,d\<newline>5,e\<newline>6,f\<newline>7,g\<newline>'', None)) ''ABC.mp3''))"
  by (simp add: started_Call [OF decode_seven_example])

theorem call_deadline_witness:
  "deadlineSeconds
     \<lparr>contact = \<lparr>Name = ''a'', Type = ''phone'', Number = ''1''\<rparr>,
      contacts = map (\<lambda>(n, m). \<lparr>Name = m, Type = ''phone'', Number = n\<rparr>)
        [(''1'', ''a''), (''2'', ''b''), (''3'', ''c''), (''4'', ''d''), (''5'', ''e''), (''6'', ''f''),
         (''7'', ''g'')],
      recName = ''ABC.mp3''\<rparr> = 4 \<and>
   (\<exists>d. timeout (goroutineContext
       \<lparr>contact = \<lparr>Name = ''a'', Type = ''phone'', Number = ''1''\<rparr>,
        contacts = map (\<lambda>(n, m). \<lparr>Name = m, Type = ''phone'', Number = n\<rparr>)
          [(''1'', ''a''), (''2'', ''b''), (''3'', ''c''), (''4'', ''d''), (''5'', ''e''), (''6'', ''f''),
           (''7'', ''g'')],
        recName = ''ABC.mp3''\<rparr>) = Some d \<and> sint d = 4000000000)"
  using call_deadline [OF decode_seven_example started_seven_example]
  by (simp add: CallLimiter_def)

text \<open>When a call attempt fails, and with which error.\<close>

lemma call_encode_error:
  "jsonEncode w (callPayload c to rname) = Inl e \<Longrightarrow>
   call w c ctx to rname = Some (Errorf ''unable to encode ncco: '' e)"
  by (simp add: call_def)

lemma call_limiter_error:
  "jsonEncode w (callPayload c to rname) = Inr buf \<Longrightarrow> limiterWait w CallLimiter ctx = Some e \<Longrightarrow>
   call w c ctx to rname =
     Some (Errorf ''unable to make call: '' (Errorf ''client: unable to perform Post: '' e))"
  by (simp add: call_def Post_def)

lemma call_status_error:
  "jsonEncode w (callPayload c to rname) = Inr buf \<Longrightarrow>
   Post w c ctx ''https://api.nexmo.com/v1/calls'' buf = (Some resp, err) \<Longrightarrow>
   StatusCode resp \<noteq> 200 \<Longrightarrow> StatusCode resp \<noteq> 201 \<Longrightarrow>
   call w c ctx to rname =
     Some (Errorf ''unable to make call: '' (ErrorString (''request failed: '' @ Status resp)))"
  using Post_response [of w c ctx "''https://api.nexmo.com/v1/calls''" buf resp err]
  by (simp add: call_def checkStatus_def)

lemma call_succeeds:
  "call w c ctx to rname = None \<longleftrightarrow>
     (\<exists>buf resp. jsonEncode w (callPayload c to rname) = Inr buf \<and>
        Post w c ctx ''https://api.nexmo.com/v1/calls'' buf = (Some resp, None) \<and>
        (StatusCode resp = 200 \<or> StatusCode resp = 201))"
proof
  assume a: "call w c ctx to rname = None"
  then obtain buf where b: "jsonEncode w (callPayload c to rname) = Inr buf"
    by (cases "jsonEncode w (callPayload c to rname)") (auto simp: call_def)
  obtain x y where p: "Post w c ctx ''https://api.nexmo.com/v1/calls'' buf = (x, y)"
    by (cases "Post w c ctx ''https://api.nexmo.com/v1/calls'' buf")
  from a b p have y: "y = None" by (cases y) (auto simp: call_def)
  have "x \<noteq> None"
    using p y Do_response_or_error [of w c "''POST''" "''https://api.nexmo.com/v1/calls''" "Some buf"]
    by (auto simp: Post_def split: option.splits)
  then obtain resp where x: "x = Some resp" by auto
  from Post_response [OF p [unfolded x]] y have "checkStatus resp = None" by simp
  then have "StatusCode resp = 200 \<or> StatusCode resp = 201"
    by (simp add: checkStatus_def split: if_splits)
  with b p x y show "\<exists>buf resp. jsonEncode w (callPayload c to rname) = Inr buf \<and>
        Post w c ctx ''https://api.nexmo.com/v1/calls'' buf = (Some resp, None) \<and>
        (StatusCode resp = 200 \<or> StatusCode resp = 201)" by blast
next
  assume "\<exists>buf resp. jsonEncode w (callPayload c to rname) = Inr buf \<and>
        Post w c ctx ''https://api.nexmo.com/v1/calls'' buf = (Some resp, None) \<and>
        (StatusCode resp = 200 \<or> StatusCode resp = 201)"
  then show "call w c ctx to rname = None" by (auto simp: call_def)
qed

text \<open>
  What \<open>Call\<close> starts over a decoded list: one goroutine per contact, in the
  order of the list, duplicates included, each with the list and the recording
  name in its closure; its body logs its own line and, when its own call
  fails, the error of that call.
\<close>

lemma Call_starts:
  assumes "DecodeContacts (ReadBroadcastList p) = (cs, err)"
    and "err = None \<or> err = Some ErrCorruptedContacts"
  shows "map contact (started (Call c p rname)) = cs"
    and "\<forall>g\<in>set (started (Call c p rname)). contacts g = cs \<and> recName g = rname"
  using assms(2) by (auto simp: started_Call [OF assms(1)] comp_def)

section \<open>The recording-stored webhook\<close>

text \<open>
  C6. When the body of a recording-stored webhook decodes with
  \<^verbatim>\<open>recording_uuid\<close> = \<open>U\<close>, every call of \<open>WriteRec\<close> and every call of
  \<open>Client.Call\<close> the handler makes is given the name \<open>U\<close> followed by \<^verbatim>\<open>.mp3\<close>
  (so is every goroutine of the broadcast); once the download succeeds
  \<open>WriteRec\<close> is called under that name, and once \<open>WriteRec\<close> succeeds the
  broadcast is triggered under it.
\<close>

theorem recording_name:
  assumes "Method r = ''POST''"
    and "decodeStruct (Body r) [(''recording_url'', []), (''recording_uuid'', [])] = Inr content"
    and "field ''recording_uuid'' content = U"
  shows "(\<forall>(b, n)\<in>set (writeRecCalls (storeRecordingEventHandler w s c r)). n = U @ ''.mp3'') \<and>
         (\<forall>(n, cr)\<in>set (callCalls (storeRecordingEventHandler w s c r)).
            n = U @ ''.mp3'' \<and> cr = Call c s (U @ ''.mp3'') \<and>
            (\<forall>g\<in>set (started cr). recName g = U @ ''.mp3'')) \<and>
         (\<forall>resp. Get w c Background (field ''recording_url'' content) = (Some resp, None) \<longrightarrow>
            writeRecCalls (storeRecordingEventHandler w s c r) = [(RespBody resp, U @ ''.mp3'')] \<and>
            (\<forall>path. WriteRec s (RespBody resp) (U @ ''.mp3'') = Inr path \<longrightarrow>
               callCalls (storeRecordingEventHandler w s c r) = [(U @ ''.mp3'', Call c s (U @ ''.mp3''))]))"
proof -
  have g: "\<forall>g\<in>set (started (Call c s n)). recName g = n" for n
    by (cases "DecodeContacts (ReadBroadcastList s)")
       (auto simp: Call_def CallDecoded_def split: option.splits if_splits)
  show ?thesis using assms g [of "U @ ''.mp3''"]
    by (auto simp: storeRecordingEventHandler_def recFormat_def Let_def
        split: prod.splits option.splits sum.splits)
qed

lemma recordingEvent_decodes:
  "decodeStruct (Body recordingEvent) [(''recording_url'', []), (''recording_uuid'', [])] =
     Inr [(''recording_url'', ''https://api.nexmo.com/v1/files/ABC''), (''recording_uuid'', ''ABC'')]"
  by code_simp

lemma recordingEvent_Get:
  "Get (worldAnswering 200 ''200 OK'') exampleClient Background
     (field ''recording_url''
        [(''recording_url'', ''https://api.nexmo.com/v1/files/ABC''), (''recording_uuid'', ''ABC'')]) =
   (Some \<lparr>StatusCode = 200, Status = ''200 OK'', RespBody = ''audio''\<rparr>, None)"
  by (simp add: Get_def Do_def Token_def checkStatus_def worldAnswering_def exampleClient_def Let_def)

theorem recording_name_witness:
  "Method recordingEvent = ''POST'' \<and>
   field ''recording_uuid''
     [(''recording_url'', ''https://api.nexmo.com/v1/files/ABC''), (''recording_uuid'', ''ABC'')] = ''ABC'' \<and>
   writeRecCalls (storeRecordingEventHandler (worldAnswering 200 ''200 OK'')
       (storageOf (''1,a\<newline>'', None)) exampleClient recordingEvent) = [(''audio'', ''ABC.mp3'')] \<and>
   callCalls (storeRecordingEventHandler (worldAnswering 200 ''200 OK'')
       (storageOf (''1,a\<newline>'', None)) exampleClient recordingEvent) =
     [(''ABC.mp3'', Call exampleClient (storageOf (''1,a\<newline>'', None)) ''ABC.mp3'')]"
proof -
  have m: "Method recordingEvent = ''POST''" by (simp add: recordingEvent_def)
  have u: "field ''recording_uuid''
     [(''recording_url'', ''https://api.nexmo.com/v1/files/ABC''), (''recording_uuid'', ''ABC'')] = ''ABC''"
    by (simp add: field_def)
  have wr: "WriteRec (storageOf (''1,a\<newline>'', None)) ''audio'' (''ABC'' @ ''.mp3'') = Inr ''recs/ABC.mp3''"
    by (simp add: storageOf_def)
  from recording_name [OF m recordingEvent_decodes u,
      of "worldAnswering 200 ''200 OK''" "storageOf (''1,a\<newline>'', None)" exampleClient]
    recordingEvent_Get wr m u
  show ?thesis by simp
qed

section \<open>The answer webhook\<close>

lemma findCaller_filter:
  "findCaller frm wl acc =
     (case filter (\<lambda>v. Number v = frm) wl of [] \<Rightarrow> acc | v # vs \<Rightarrow> Some (last (v # vs)))"
  by (induction wl arbitrary: acc) (auto split: list.splits)

lemma findCaller_None: "findCaller frm wl None = None \<longleftrightarrow> frm \<notin> Number ` set wl"
proof -
  have "filter (\<lambda>v. Number v = frm) wl = [] \<longleftrightarrow> frm \<notin> Number ` set wl"
    by (auto simp: filter_empty_conv)
  then show ?thesis
    by (cases "filter (\<lambda>v. Number v = frm) wl") (simp_all add: findCaller_filter)
qed

lemma findCaller_Some:
  "findCaller frm wl None = Some caller \<Longrightarrow> caller \<in> set wl \<and> Number caller = frm"
proof -
  assume a: "findCaller frm wl None = Some caller"
  then obtain v vs where f: "filter (\<lambda>v. Number v = frm) wl = v # vs" and c: "caller = last (v # vs)"
    by (auto simp: findCaller_filter split: list.splits)
  have "last (v # vs) \<in> set (v # vs)" by (rule last_in_set) simp
  with f c have "caller \<in> set (filter (\<lambda>v. Number v = frm) wl)" by simp
  then show ?thesis by simp
qed

lemma answer_code:
  assumes "CallerFromRequest r = Inr X" and "DecodeContacts (ReadWhitelist s) = (wl, err)"
  shows "Code (fst (recordAnswerHandler s origin r)) =
           Some (if err \<noteq> None then 500 else if X \<in> Number ` set wl then 200 else 401)"
proof (cases err)
  case (Some e)
  with assms show ?thesis
    by (simp add: recordAnswerHandler_def newResponseWriter_def StatusInternalServerError_def)
next
  case None
  show ?thesis
  proof (cases "findCaller X wl None")
    case nf: None
    with assms None findCaller_None [of X wl] show ?thesis
      by (simp add: recordAnswerHandler_def newResponseWriter_def StatusUnauthorized_def)
  next
    case (Some caller)
    with assms None findCaller_Some [OF Some] show ?thesis
      by (auto simp: recordAnswerHandler_def newResponseWriter_def StatusOK_def)
  qed
qed

text \<open>
  C3, as amended. For every answer request whose caller number \<open>X\<close> was
  extracted: when \<open>X\<close> is the number of a contact of the decoded whitelist the
  handler answers 200 with a JSON array of exactly two instructions, a talk
  action then a record action; when the whitelist decoded without error and
  \<open>X\<close> is not in it the handler answers 401 and writes no body; when decoding
  the whitelist returned an error (\<open>ErrCorruptedContacts\<close> included) the handler
  answers 500 and writes no body.
\<close>

theorem answer_handler_whitelist:
  assumes "CallerFromRequest r = Inr X" and "DecodeContacts (ReadWhitelist s) = (wl, err)"
  shows "(X \<in> Number ` set wl \<longrightarrow>
            Code (fst (recordAnswerHandler s origin r)) = Some 200 \<and>
            (\<exists>talk record.
               Written (fst (recordAnswerHandler s origin r)) = [WJson (JArray [JObject talk, JObject record])] \<and>
               map_of talk ''action'' = Some (JString ''talk'') \<and>
               map_of record ''action'' = Some (JString ''record''))) \<and>
         (err = None \<longrightarrow> X \<notin> Number ` set wl \<longrightarrow>
            Code (fst (recordAnswerHandler s origin r)) = Some 401 \<and>
            Written (fst (recordAnswerHandler s origin r)) = []) \<and>
         (err \<noteq> None \<longrightarrow>
            Code (fst (recordAnswerHandler s origin r)) = Some 500 \<and>
            Written (fst (recordAnswerHandler s origin r)) = [])"
proof (intro conjI impI)
  assume "err = None" and out: "X \<notin> Number ` set wl"
  with assms findCaller_None [of X wl]
  show "Code (fst (recordAnswerHandler s origin r)) = Some 401"
    and "Written (fst (recordAnswerHandler s origin r)) = []"
    by (simp_all add: recordAnswerHandler_def newResponseWriter_def StatusUnauthorized_def)
next
  assume "err \<noteq> None"
  with assms
  show "Code (fst (recordAnswerHandler s origin r)) = Some 500"
    and "Written (fst (recordAnswerHandler s origin r)) = []"
    by (auto simp: recordAnswerHandler_def newResponseWriter_def StatusInternalServerError_def)
next
  assume inl: "X \<in> Number ` set wl"
  then have "wl \<noteq> []" by auto
  with assms(2) DecodeContacts_error_empty [of "ReadWhitelist s" wl] have err: "err = None"
    by (cases err) auto
  from inl findCaller_None [of X wl] obtain caller where c: "findCaller X wl None = Some caller"
    by (cases "findCaller X wl None") auto
  with assms err show "Code (fst (recordAnswerHandler s origin r)) = Some 200"
    by (simp add: recordAnswerHandler_def newResponseWriter_def StatusOK_def)
  from assms err c have "Written (fst (recordAnswerHandler s origin r)) = [WJson (answerNCCO origin caller)]"
    by (simp add: recordAnswerHandler_def newResponseWriter_def)
  then show "\<exists>talk record.
       Written (fst (recordAnswerHandler s origin r)) = [WJson (JArray [JObject talk, JObject record])] \<and>
       map_of talk ''action'' = Some (JString ''talk'') \<and>
       map_of record ''action'' = Some (JString ''record'')"
    by (simp add: answerNCCO_def)
qed

lemma whitelist_example:
  "DecodeContacts (ReadWhitelist (storageOf (''39111,Ada\<newline>39222,Bob\<newline>'', None))) =
     ([\<lparr>Name = ''Ada'', Type = ''phone'', Number = ''39111''\<rparr>,
       \<lparr>Name = ''Bob'', Type = ''phone'', Number = ''39222''\<rparr>], None)"
  unfolding storageOf_def by code_simp

lemma answerRequest_caller: "frm \<noteq> [] \<Longrightarrow> CallerFromRequest (answerRequest frm) = Inr frm"
  by (simp add: CallerFromRequest_def callerFromRequestQuery_def answerRequest_def)

lemma corrupt_whitelist_example:
  "DecodeContacts (ReadWhitelist (storageOf (''bob\<newline>'', None))) = ([], Some ErrCorruptedContacts)"
  unfolding storageOf_def by code_simp

theorem answer_handler_whitelist_witness:
  "CallerFromRequest (answerRequest ''39222'') = Inr ''39222'' \<and>
   CallerFromRequest (answerRequest ''39333'') = Inr ''39333'' \<and>
   Code (fst (recordAnswerHandler (storageOf (''39111,Ada\<newline>39222,Bob\<newline>'', None))
      ''https://voice.example'' (answerRequest ''39222''))) = Some 200 \<and>
   (\<exists>talk record.
      Written (fst (recordAnswerHandler (storageOf (''39111,Ada\<newline>39222,Bob\<newline>'', None))
        ''https://voice.example'' (answerRequest ''39222''))) =
        [WJson (JArray [JObject talk, JObject record])] \<and>
      map_of talk ''action'' = Some (JString ''talk'') \<and>
      map_of record ''action'' = Some (JString ''record'')) \<and>
   Code (fst (recordAnswerHandler (storageOf (''39111,Ada\<newline>39222,Bob\<newline>'', None))
      ''https://voice.example'' (answerRequest ''39333''))) = Some 401 \<and>
   Written (fst (recordAnswerHandler (storageOf (''39111,Ada\<newline>39222,Bob\<newline>'', None))
      ''https://voice.example'' (answerRequest ''39333''))) = [] \<and>
   Code (fst (recordAnswerHandler (storageOf (''bob\<newline>'', None))
      ''https://voice.example'' (answerRequest ''39333''))) = Some 500"
proof -
  have a: "CallerFromRequest (answerRequest ''39222'') = Inr ''39222''"
    and b: "CallerFromRequest (answerRequest ''39333'') = Inr ''39333''"
    by (simp_all add: answerRequest_caller)
  from answer_handler_whitelist [OF a whitelist_example, of "''https://voice.example''"]
    answer_handler_whitelist [OF b whitelist_example, of "''https://voice.example''"]
    answer_handler_whitelist [OF b corrupt_whitelist_example, of "''https://voice.example''"] a b
  show ?thesis by simp
qed

text \<open>
  C3 as stated fails: with the whitelist of the single row \<^verbatim>\<open>bob\<close> the caller
  39333 is in no decoded contact, and the handler answers 500, not 401.
\<close>

theorem answer_handler_corrupt_whitelist:
  "CallerFromRequest (answerRequest ''39333'') = Inr ''39333'' \<and>
   ''39333'' \<notin> Number ` set (fst (DecodeContacts (ReadWhitelist (storageOf (''bob\<newline>'', None))))) \<and>
   Code (fst (recordAnswerHandler (storageOf (''bob\<newline>'', None))
      ''https://voice.example'' (answerRequest ''39333''))) = Some 500 \<and>
   Code (fst (recordAnswerHandler (storageOf (''bob\<newline>'', None))
      ''https://voice.example'' (answerRequest ''39333''))) \<noteq> Some 401"
  by (simp add: answerRequest_caller corrupt_whitelist_example recordAnswerHandler_def
      newResponseWriter_def StatusInternalServerError_def)

lemma decodeMembers_no_from:
  "\<forall>(k, v)\<in>set kvs. \<not> foldEq ''from'' k \<Longrightarrow>
   decodeMembers kvs [(''from'', cur)] = Inr [(''from'', cur)]"
  by (induction kvs) auto

lemma callerlessRequest_keys:
  "\<forall>(k, v)\<in>set [(''to'', JString ''39000''), (''uuid'', JString ''aaaa-bbbb'')]. \<not> foldEq ''from'' k"
  by (simp add: foldEq_def asciiLower_def)

lemma ghost_whitelist_example:
  "DecodeContacts (ReadWhitelist (storageOf ('',ghost\<newline>'', None))) =
     ([\<lparr>Name = ''ghost'', Type = ''phone'', Number = []\<rparr>], None)"
  unfolding storageOf_def by code_simp

text \<open>
  C10, as amended. For a POST answer request whose body is a JSON object with
  no member that decodes into \<^verbatim>\<open>from\<close> (no key equal to it up to the case of
  letters), caller extraction succeeds with the empty string rather than
  failing as an absent identity. When the whitelist decoded without error, the
  request is then rejected with 401 only because the empty number is the
  number of no contact of the whitelist: a whitelist row whose number field is
  empty makes the handler answer 200. When decoding the whitelist returned an
  error the handler answers 500.
\<close>

theorem callerless_request:
  assumes "Method r = ''POST''" and "Body r = Inr (JObject kvs)"
    and "\<forall>(k, v)\<in>set kvs. \<not> foldEq ''from'' k"
    and "DecodeContacts (ReadWhitelist s) = (wl, err)"
  shows "CallerFromRequest r = Inr [] \<and>
         (Code (fst (recordAnswerHandler s origin r)) = Some 401 \<longleftrightarrow>
            err = None \<and> [] \<notin> Number ` set wl) \<and>
         ([] \<in> Number ` set wl \<longrightarrow> Code (fst (recordAnswerHandler s origin r)) = Some 200) \<and>
         (err \<noteq> None \<longrightarrow> Code (fst (recordAnswerHandler s origin r)) = Some 500)"
proof -
  from assms(1-3) have c: "CallerFromRequest r = Inr []"
    by (simp add: CallerFromRequest_def callerFromRequestBody_def decodeStruct_def
        decodeMembers_no_from field_def)
  have e: "err = None" if "[] \<in> Number ` set wl"
  proof -
    from that have "wl \<noteq> []" by auto
    with assms(4) DecodeContacts_error_empty [of "ReadWhitelist s" wl] show ?thesis
      by (cases err) auto
  qed
  from answer_code [OF c assms(4), of origin] e c show ?thesis by auto
qed

theorem callerless_request_witness:
  "CallerFromRequest callerlessRequest = Inr [] \<and>
   DecodeContacts (ReadWhitelist (storageOf ('',ghost\<newline>'', None))) =
     ([\<lparr>Name = ''ghost'', Type = ''phone'', Number = []\<rparr>], None) \<and>
   Code (fst (recordAnswerHandler (storageOf ('',ghost\<newline>'', None)) ''https://voice.example''
      callerlessRequest)) = Some 200 \<and>
   Code (fst (recordAnswerHandler (storageOf (''39111,Ada\<newline>39222,Bob\<newline>'', None))
      ''https://voice.example'' callerlessRequest)) = Some 401 \<and>
   Code (fst (recordAnswerHandler (storageOf (''bob\<newline>'', None))
      ''https://voice.example'' callerlessRequest)) = Some 500"
proof -
  have m: "Method callerlessRequest = ''POST''"
    and b: "Body callerlessRequest = Inr (JObject [(''to'', JString ''39000''), (''uuid'', JString ''aaaa-bbbb'')])"
    by (simp_all add: callerlessRequest_def)
  from callerless_request [OF m b callerlessRequest_keys ghost_whitelist_example,
      of "''https://voice.example''"]
    callerless_request [OF m b callerlessRequest_keys whitelist_example,
      of "''https://voice.example''"]
    callerless_request [OF m b callerlessRequest_keys corrupt_whitelist_example,
      of "''https://voice.example''"]
    ghost_whitelist_example
  show ?thesis by simp
qed

text \<open>
  C10 as stated fails at three requests whose body is well-formed JSON with no
  \<^verbatim>\<open>from\<close> field. The body \<^verbatim>\<open>[]\<close> makes caller extraction fail. The body
  \<^verbatim>\<open>{"FROM": "39222"}\<close> makes it succeed with 39222, not with the empty string.
  The body of \<open>callerlessRequest\<close> gives the empty string, and with the
  whitelist of the single row \<^verbatim>\<open>bob\<close>, where the empty number is in no decoded
  contact, the handler answers 500, not 401.
\<close>

theorem callerless_request_fails:
  "CallerFromRequest \<lparr>Method = ''POST'', Query = [], Body = Inr (JArray [])\<rparr> =
     Inl (Errorf ''unable to find calling number in request body: '' UnmarshalTypeError) \<and>
   CallerFromRequest \<lparr>Method = ''POST'', Query = [], Body = Inr (JObject [(''FROM'', JString ''39222'')])\<rparr> =
     Inr ''39222'' \<and>
   CallerFromRequest callerlessRequest = Inr [] \<and>
   [] \<notin> Number ` set (fst (DecodeContacts (ReadWhitelist (storageOf (''bob\<newline>'', None))))) \<and>
   Code (fst (recordAnswerHandler (storageOf (''bob\<newline>'', None)) ''https://voice.example''
      callerlessRequest)) = Some 500 \<and>
   Code (fst (recordAnswerHandler (storageOf (''bob\<newline>'', None)) ''https://voice.example''
      callerlessRequest)) \<noteq> Some 401"
proof -
  have a: "CallerFromRequest \<lparr>Method = ''POST'', Query = [], Body = Inr (JArray [])\<rparr> =
     Inl (Errorf ''unable to find calling number in request body: '' UnmarshalTypeError)"
    by (simp add: CallerFromRequest_def callerFromRequestBody_def decodeStruct_def)
  have b: "CallerFromRequest \<lparr>Method = ''POST'', Query = [], Body = Inr (JObject [(''FROM'', JString ''39222'')])\<rparr> =
     Inr ''39222''"
    by code_simp
  have c: "CallerFromRequest callerlessRequest = Inr []"
    by (simp add: CallerFromRequest_def callerFromRequestBody_def decodeStruct_def foldEq_def
        asciiLower_def field_def callerlessRequest_def)
  have d: "Code (fst (recordAnswerHandler (storageOf (''bob\<newline>'', None)) ''https://voice.example''
      callerlessRequest)) = Some 500"
    by (simp add: c corrupt_whitelist_example recordAnswerHandler_def newResponseWriter_def
        StatusInternalServerError_def)
  from a b c d show ?thesis by (simp add: corrupt_whitelist_example)
qed

section \<open>The wire payload of a contact\<close>

text \<open>The bytes of a row of two fields that need no quoting decode to that row.\<close>

lemma readSlice_line: "NL \<notin> set xs \<Longrightarrow> readSlice (xs @ NL # rest) = (xs @ [NL], rest)"
  by (induction xs) auto

lemma readLine_plain_row:
  assumes "plain num" and "plain name"
  shows "readLine (num @ comma # name @ [NL]) = Some (num @ comma # name @ [NL], [])"
proof -
  let ?xs = "num @ comma # name"
  have nl: "NL \<notin> set ?xs" using assms by (auto simp: plain_def)
  have s: "readSlice (?xs @ NL # []) = (?xs @ [NL], [])" by (rule readSlice_line [OF nl])
  have l: "last ?xs \<noteq> CR" using assms by (cases name rule: rev_cases) (auto simp: plain_def)
  have ne: "?xs \<noteq> []" by simp
  have "(?xs @ [NL]) ! (length (?xs @ [NL]) - 2) = last ?xs"
    using ne by (cases ?xs rule: rev_cases) (auto simp: nth_append)
  with l have "(?xs @ [NL]) ! (length (?xs @ [NL]) - 2) \<noteq> CR" by simp
  with s show ?thesis by (simp add: readLine_def Let_def)
qed

lemma parseField_plain_row:
  assumes "plain num" and "plain name"
  shows "parseField False (num @ comma # name @ [NL]) inp [] [] = (Inr [num, name], inp)"
proof -
  have t1: "takeWhile (\<lambda>c. c \<noteq> comma) (num @ comma # name @ [NL]) = num"
    using assms by (simp add: plain_def takeWhile_append2)
  have d1: "dropWhile (\<lambda>c. c \<noteq> comma) (num @ comma # name @ [NL]) = comma # name @ [NL]"
    using assms by (simp add: plain_def dropWhile_append2)
  have h1: "hd (num @ comma # name @ [NL]) \<noteq> quote"
    using assms by (cases num) (auto simp: plain_def)
  have q1: "quote \<notin> set num" using assms by (auto simp: plain_def)
  have t2: "dropWhile (\<lambda>c. c \<noteq> comma) (name @ [NL]) = []"
    using assms by (auto simp: plain_def)
  have h2: "hd (name @ [NL]) \<noteq> quote" using assms by (cases name) (auto simp: plain_def)
  have q2: "quote \<notin> set name" using assms by (auto simp: plain_def)
  have second: "parseField False (name @ [NL]) inp [] [num] = (Inr [num, name], inp)"
    by (subst parseField.simps) (simp add: t2 h2 q2 lengthNL_def Let_def)
  show ?thesis
    by (subst parseField.simps) (simp add: t1 d1 h1 q1 second Let_def)
qed

lemma csvRows_plain_row:
  assumes "plain num" and "plain name" and "num = [] \<or> hd num \<noteq> CHR ''#''"
  shows "csvRows (num @ comma # name @ [NL]) = Inr [[num, name]]"
proof -
  let ?line = "num @ comma # name @ [NL]"
  let ?r = "(NewReader ?line)\<lparr>Comment := Some (CHR ''#''), FieldsPerRecord := - 1\<rparr>"
  have hd: "hd ?line \<noteq> CHR ''#''" using assms(3) by (cases num) auto
  have len: "length ?line \<noteq> lengthNL ?line" by (simp add: lengthNL_def)
  have nx: "nextLine (Some (CHR ''#'')) ?line = Some (?line, [])"
    using hd len by (subst nextLine.simps) (simp add: readLine_plain_row [OF assms(1,2)])
  have r1: "readRecord ?r = (Some (Inr [num, name]), ?r\<lparr>input := []\<rparr>)"
    by (simp add: readRecord_def NewReader_def nx parseField_plain_row [OF assms(1,2)])
  have "nextLine (Some (CHR ''#'')) [] = None"
    by (subst nextLine.simps) (simp add: readLine_def)
  then have r2: "readRecord (?r\<lparr>input := []\<rparr>) = (None, ?r\<lparr>input := []\<rparr>)"
    by (simp add: readRecord_def NewReader_def)
  show ?thesis
    unfolding csvRows_def ReadAll_def
    by (simp add: ReadAllLoop_rec [OF r1] ReadAllLoop_EOF [OF r2])
qed

lemma DecodeContacts_plain_row:
  assumes "plain num" and "plain name" and "num = [] \<or> hd num \<noteq> CHR ''#''"
  shows "DecodeContacts (num @ comma # name @ [NL], None) = ([NewContact num name], None)"
  using DecodeContacts_rows [OF csvRows_plain_row [OF assms]] by (simp add: uniform_def)

text \<open>
  C8. The payload of an outbound call carries, for the contact called, its
  kind tag and its number and nothing else of it: the member \<^verbatim>\<open>to\<close> is the
  one-element array of the object with \<^verbatim>\<open>type\<close> and \<^verbatim>\<open>number\<close>, and neither the
  payload nor the call made with it depends on the name. Decoding a directory
  row that carries the number and the name of a contact (the row alone, or
  among rows of one size; for fields that need no quoting, the row written as
  number, comma, name) yields the contact with that number, that name and the
  kind \<^verbatim>\<open>phone\<close>, whose payload carries the same number and the kind \<^verbatim>\<open>phone\<close>;
  for a contact of kind \<^verbatim>\<open>phone\<close> the decoded contact is the contact itself.
\<close>

theorem contact_wire_round_trip:
  "marshalContact c = JObject [(''type'', JString (Type c)), (''number'', JString (Number c))] \<and>
   callPayload cl c rname =
     JObject
       [(''to'', JArray [JObject [(''type'', JString (Type c)), (''number'', JString (Number c))]]),
        (''from'', JObject [(''type'', JString ''phone''), (''number'', JString (ClientNumber cl))]),
        (''answer_url'', JArray [JString (Origin cl @ ''/play/recording/'' @ rname)]),
        (''event_url'', JArray [JString (Origin cl @ ''/play/recording/event'')])] \<and>
   marshalContact (c\<lparr>Name := anyName\<rparr>) = marshalContact c \<and>
   callPayload cl (c\<lparr>Name := anyName\<rparr>) rname = callPayload cl c rname \<and>
   call w cl ctx (c\<lparr>Name := anyName\<rparr>) rname = call w cl ctx c rname \<and>
   (csvRows buf = Inr [[Number c, Name c]] \<longrightarrow>
      DecodeContacts (buf, None) = ([c\<lparr>Type := ''phone''\<rparr>], None) \<and>
      marshalContact (c\<lparr>Type := ''phone''\<rparr>) =
        JObject [(''type'', JString ''phone''), (''number'', JString (Number c))] \<and>
      (Type c = ''phone'' \<longrightarrow> DecodeContacts (buf, None) = ([c], None))) \<and>
   (plain (Number c) \<and> plain (Name c) \<and> (Number c = [] \<or> hd (Number c) \<noteq> CHR ''#'') \<longrightarrow>
      DecodeContacts (Number c @ comma # Name c @ [NL], None) = ([c\<lparr>Type := ''phone''\<rparr>], None)) \<and>
   (csvRows buf = Inr rows \<and> (\<forall>r\<in>set rows. length r = n) \<and> 2 \<le> n \<and> i < length rows \<and>
    rows ! i ! 0 = Number c \<and> rows ! i ! 1 = Name c \<longrightarrow>
      (\<exists>ds. DecodeContacts (buf, None) = (ds, None) \<and> length ds = length rows \<and>
            ds ! i = c\<lparr>Type := ''phone''\<rparr> \<and>
            marshalContact (ds ! i) =
              JObject [(''type'', JString ''phone''), (''number'', JString (Number c))] \<and>
            (\<exists>rest. callPayload cl (ds ! i) rname =
               JObject ((''to'', JArray [JObject [(''type'', JString ''phone''),
                                                  (''number'', JString (Number c))]]) # rest)) \<and>
            (Type c = ''phone'' \<longrightarrow> ds ! i = c \<and> marshalContact (ds ! i) = marshalContact c)))"
proof (intro conjI impI)
  assume a: "csvRows buf = Inr rows \<and> (\<forall>r\<in>set rows. length r = n) \<and> 2 \<le> n \<and> i < length rows \<and>
    rows ! i ! 0 = Number c \<and> rows ! i ! 1 = Name c"
  then have u: "uniform rows" unfolding uniform_def by (cases rows) auto
  from a have "\<not> (rows \<noteq> [] \<and> length (hd rows) < 2)" by (cases rows) auto
  with DecodeContacts_rows [of buf rows] a u
  have d: "DecodeContacts (buf, None) = (map (\<lambda>rec. NewContact (rec ! 0) (rec ! 1)) rows, None)"
    by simp
  from a have e: "map (\<lambda>rec. NewContact (rec ! 0) (rec ! 1)) rows ! i = c\<lparr>Type := ''phone''\<rparr>"
    by (simp add: NewContact_def)
  show "\<exists>ds. DecodeContacts (buf, None) = (ds, None) \<and> length ds = length rows \<and>
            ds ! i = c\<lparr>Type := ''phone''\<rparr> \<and>
            marshalContact (ds ! i) =
              JObject [(''type'', JString ''phone''), (''number'', JString (Number c))] \<and>
            (\<exists>rest. callPayload cl (ds ! i) rname =
               JObject ((''to'', JArray [JObject [(''type'', JString ''phone''),
                                                  (''number'', JString (Number c))]]) # rest)) \<and>
            (Type c = ''phone'' \<longrightarrow> ds ! i = c \<and> marshalContact (ds ! i) = marshalContact c)"
    using d e by (auto simp: marshalContact_def callPayload_def)
next
  assume "plain (Number c) \<and> plain (Name c) \<and> (Number c = [] \<or> hd (Number c) \<noteq> CHR ''#'')"
  then show "DecodeContacts (Number c @ comma # Name c @ [NL], None) = ([c\<lparr>Type := ''phone''\<rparr>], None)"
    using DecodeContacts_plain_row [of "Number c" "Name c"] by (simp add: NewContact_def)
next
  assume a: "csvRows buf = Inr [[Number c, Name c]]"
  from DecodeContacts_rows [OF a]
  show d: "DecodeContacts (buf, None) = ([c\<lparr>Type := ''phone''\<rparr>], None)"
    by (simp add: uniform_def NewContact_def)
  assume "Type c = ''phone''"
  with d show "DecodeContacts (buf, None) = ([c], None)" by simp
qed (simp_all add: marshalContact_def callPayload_def call_def)

lemma quoted_rows_example:
  "csvRows ''39000,Zed\<newline>39111,\"Ada, L.\"\<newline>'' = Inr [[''39000'', ''Zed''], [''39111'', ''Ada, L.'']]"
  by code_simp

lemma quoted_row_example:
  "csvRows ''39111,\"Ada, L.\"\<newline>'' = Inr [[''39111'', ''Ada, L.'']]"
  by code_simp

theorem contact_wire_round_trip_witness:
  "DecodeContacts (''39222,Bob\<newline>'', None) =
     ([\<lparr>Name = ''Bob'', Type = ''phone'', Number = ''39222''\<rparr>], None) \<and>
   csvRows ''39111,\"Ada, L.\"\<newline>'' = Inr [[''39111'', ''Ada, L.'']] \<and>
   DecodeContacts (''39111,\"Ada, L.\"\<newline>'', None) =
     ([\<lparr>Name = ''Ada, L.'', Type = ''phone'', Number = ''39111''\<rparr>], None) \<and>
   csvRows ''39000,Zed\<newline>39111,\"Ada, L.\"\<newline>'' = Inr [[''39000'', ''Zed''], [''39111'', ''Ada, L.'']] \<and>
   (\<exists>ds. DecodeContacts (''39000,Zed\<newline>39111,\"Ada, L.\"\<newline>'', None) = (ds, None) \<and>
         length ds = 2 \<and>
         ds ! 1 = \<lparr>Name = ''Ada, L.'', Type = ''phone'', Number = ''39111''\<rparr> \<and>
         marshalContact (ds ! 1) = JObject [(''type'', JString ''phone''), (''number'', JString ''39111'')] \<and>
         callPayload exampleClient (ds ! 1) ''ABC.mp3'' =
           JObject
             [(''to'', JArray [JObject [(''type'', JString ''phone''), (''number'', JString ''39111'')]]),
              (''from'', JObject [(''type'', JString ''phone''), (''number'', JString ''39000'')]),
              (''answer_url'', JArray [JString ''https://voice.example/play/recording/ABC.mp3'']),
              (''event_url'', JArray [JString ''https://voice.example/play/recording/event''])])"
proof -
  let ?c = "\<lparr>Name = ''Ada, L.'', Type = ''phone'', Number = ''39111''\<rparr>"
  let ?buf = "''39000,Zed\<newline>39111,\"Ada, L.\"\<newline>''"
  let ?rows = "[[''39000'', ''Zed''], [''39111'', ''Ada, L.'']]"
  have h: "csvRows ?buf = Inr ?rows \<and> (\<forall>r\<in>set ?rows. length r = 2) \<and> (2::nat) \<le> 2 \<and>
      1 < length ?rows \<and> ?rows ! 1 ! 0 = Number ?c \<and> ?rows ! 1 ! 1 = Name ?c"
    by (simp add: quoted_rows_example)
  note t = contact_wire_round_trip [where c = ?c and cl = exampleClient and rname = "''ABC.mp3''"
      and buf = ?buf and rows = ?rows and n = 2 and i = 1]
  from t h
  have "\<exists>ds. DecodeContacts (?buf, None) = (ds, None) \<and> length ds = length ?rows \<and>
            ds ! 1 = ?c\<lparr>Type := ''phone''\<rparr> \<and>
            marshalContact (ds ! 1) =
              JObject [(''type'', JString ''phone''), (''number'', JString (Number ?c))] \<and>
            (Type ?c = ''phone'' \<longrightarrow> ds ! 1 = ?c \<and> marshalContact (ds ! 1) = marshalContact ?c)"
    by blast
  moreover
  from t have "callPayload exampleClient ?c ''ABC.mp3'' =
           JObject
             [(''to'', JArray [JObject [(''type'', JString ''phone''), (''number'', JString ''39111'')]]),
              (''from'', JObject [(''type'', JString ''phone''), (''number'', JString ''39000'')]),
              (''answer_url'', JArray [JString ''https://voice.example/play/recording/ABC.mp3'']),
              (''event_url'', JArray [JString ''https://voice.example/play/recording/event''])]"
    by (simp add: exampleClient_def)
  moreover
  have h1: "csvRows ''39111,\"Ada, L.\"\<newline>'' = Inr [[Number ?c, Name ?c]]"
    by (simp add: quoted_row_example)
  from contact_wire_round_trip [where c = ?c and buf = "''39111,\"Ada, L.\"\<newline>''"] h1
  have "DecodeContacts (''39111,\"Ada, L.\"\<newline>'', None) = ([?c], None)"
    by simp
  moreover
  let ?b = "\<lparr>Name = ''Bob'', Type = ''phone'', Number = ''39222''\<rparr>"
  have h2: "plain (Number ?b) \<and> plain (Name ?b) \<and> (Number ?b = [] \<or> hd (Number ?b) \<noteq> CHR ''#'')"
    by (simp add: plain_def)
  from contact_wire_round_trip [where c = ?b] h2
  have "DecodeContacts (''39222,Bob\<newline>'', None) = ([?b], None)"
    by simp
  ultimately show ?thesis by (auto simp: quoted_rows_example quoted_row_example)
qed

end
